theory Spec2Isabelle
  imports Complex_Main "HOL-Library.Word" "HOL-Library.Signed_Division" "HOL-Library.Log_Nat"
begin

unbundle bit_operations_syntax

section \<open>Machine arithmetic of the target (RAK4630, a 32-bit ARM core)\<close>

subsection \<open>32-bit signed integers\<close>

text \<open>
  \<^verbatim>\<open>int\<close> and \<^verbatim>\<open>long\<close> are 32 bits wide on the target. They are modelled as
  \<^typ>\<open>int\<close> with the two's complement wrap-around written out after every operation;
  C's division truncates towards zero, which is \<open>sdiv\<close>.
\<close>

definition int32 :: "int \<Rightarrow> int" where
  "int32 k = signed_take_bit 31 k"

text \<open>
  \<^verbatim>\<open>map\<close> belongs to the Arduino core, not to the repository; this is the core's
  \<^verbatim>\<open>long map(long x, long in_min, long in_max, long out_min, long out_max)\<close>:
  \<^verbatim>\<open>return (x - in_min) * (out_max - out_min) / (in_max - in_min) + out_min;\<close>
  The sketch calls it with \<open>in_max \<noteq> in_min\<close> only.
\<close>

definition map_long :: "int \<Rightarrow> int \<Rightarrow> int \<Rightarrow> int \<Rightarrow> int \<Rightarrow> int" where
  "map_long x in_min in_max out_min out_max =
     int32 (int32 (int32 (int32 (x - in_min) * int32 (out_max - out_min))
                     sdiv int32 (in_max - in_min)) + out_min)"

subsection \<open>Single-precision floating point\<close>

text \<open>
  A \<^verbatim>\<open>float\<close> is an IEEE 754 binary32 value: not a number, an infinity with its sign
  (\<open>True\<close> for the negative one), or a finite value \<open>Fin m e\<close> that stands for
  \<open>m * 2 ^ e\<close>. A value really held by a float has \<open>\<bar>m\<bar> < 2 ^ 24\<close> and
  \<open>- 149 \<le> e \<le> 104\<close>. The sign of zero is not kept: no operation of the sketch
  observes it.
\<close>

datatype f32 = NaN | Infty bool | Fin int int

definition f32_ok :: "f32 \<Rightarrow> bool" where
  "f32_ok x = (case x of Fin m e \<Rightarrow> \<bar>m\<bar> < 2 ^ 24 \<and> - 149 \<le> e \<and> e \<le> 104 | _ \<Rightarrow> True)"

text \<open>The real number a finite float stands for.\<close>

definition f32_real :: "int \<Rightarrow> int \<Rightarrow> real" where
  "f32_real m e = of_int m * 2 powi e"

text \<open>
  Rounding \<open>M / 2 ^ k\<close> to the nearest integer, ties to the even one (the default
  rounding mode of the floating-point unit).
\<close>

definition rne :: "int \<Rightarrow> nat \<Rightarrow> int" where
  "rne M k =
     (if k = 0 then M
      else let q = M div 2 ^ k; r = M mod 2 ^ k; h = 2 ^ (k - 1)
           in if h < r \<or> (r = h \<and> odd q) then q + 1 else q)"

text \<open>
  The binary32 value nearest to the exact \<open>M * 2 ^ E\<close>: at most 24 significant bits,
  no exponent below \<open>- 149\<close>, and an infinity when the rounded value reaches \<open>2 ^ 128\<close>.
\<close>

definition f32_round :: "int \<Rightarrow> int \<Rightarrow> f32" where
  "f32_round M E =
     (let k = nat (max 0 (max (bitlen \<bar>M\<bar> - 24) (- 149 - E)));
          R = rne M k;
          E' = E + int k
      in if 2 ^ 277 \<le> \<bar>R\<bar> * 2 ^ nat (E' + 149) then Infty (R < 0) else Fin R E')"

text \<open>Conversion of an integer to \<^verbatim>\<open>float\<close>.\<close>

definition f32_of_int :: "int \<Rightarrow> f32" where
  "f32_of_int k = f32_round k 0"

text \<open>The product of two floats, correctly rounded.\<close>

fun f32_mul :: "f32 \<Rightarrow> f32 \<Rightarrow> f32" where
  "f32_mul NaN y = NaN"
| "f32_mul x NaN = NaN"
| "f32_mul (Infty s) (Infty t) = Infty (s \<noteq> t)"
| "f32_mul (Infty s) (Fin b eb) = (if b = 0 then NaN else Infty (s \<noteq> (b < 0)))"
| "f32_mul (Fin a ea) (Infty t) = (if a = 0 then NaN else Infty ((a < 0) \<noteq> t))"
| "f32_mul (Fin a ea) (Fin b eb) = f32_round (a * b) (ea + eb)"

text \<open>
  The comparison \<^verbatim>\<open>x < y\<close>: false as soon as one side is not a number. Two finite
  values are brought to their common exponent and compared as integers.
\<close>

fun f32_lt :: "f32 \<Rightarrow> f32 \<Rightarrow> bool" where
  "f32_lt NaN y = False"
| "f32_lt x NaN = False"
| "f32_lt (Infty s) (Infty t) = (s \<and> \<not> t)"
| "f32_lt (Infty s) (Fin b eb) = s"
| "f32_lt (Fin a ea) (Infty t) = (\<not> t)"
| "f32_lt (Fin a ea) (Fin b eb) =
     (let c = min ea eb in a * 2 ^ nat (ea - c) < b * 2 ^ nat (eb - c))"

definition f32_gt :: "f32 \<Rightarrow> f32 \<Rightarrow> bool" where
  "f32_gt x y = f32_lt y x"

definition isnan :: "f32 \<Rightarrow> bool" where
  "isnan x = (x = NaN)"

text \<open>
  Conversion of a float to an integer type truncates towards zero. The behaviour is
  undefined when the truncated value does not fit the destination type (and for a NaN
  or an infinity): that is the result \<open>None\<close>.
\<close>

fun f32_trunc :: "f32 \<Rightarrow> int option" where
  "f32_trunc (Fin m e) =
     Some (if 0 \<le> e then m * 2 ^ nat e else sgn m * (\<bar>m\<bar> div 2 ^ nat (- e)))"
| "f32_trunc x = None"

definition f32_to_uint16 :: "f32 \<Rightarrow> 16 word option" where
  "f32_to_uint16 x =
     (case f32_trunc x of
        None \<Rightarrow> None
      | Some t \<Rightarrow> if 0 \<le> t \<and> t \<le> 65535 then Some (word_of_int t) else None)"

definition f32_to_int16 :: "f32 \<Rightarrow> 16 word option" where
  "f32_to_int16 x =
     (case f32_trunc x of
        None \<Rightarrow> None
      | Some t \<Rightarrow> if - 32768 \<le> t \<and> t \<le> 32767 then Some (word_of_int t) else None)"

section \<open>The sketch: data\<close>

text \<open>
  The board's pin macros, the vendor's enumerations and the vendor's
  \<^verbatim>\<open>lmh_app_data_t\<close> (fields in the order of its declaration, which the sketch's
  positional initializer \<^verbatim>\<open>{data, 6, 2, 0, 0}\<close> relies on). Of the enumerations only
  the members the sketch names are known; the others are kept apart by their code.
\<close>

datatype pin = WB_IO3 | WB_A1 | WB_IO4

abbreviation SOIL_POWER_PIN :: pin where "SOIL_POWER_PIN \<equiv> WB_IO3"
abbreviation SOIL_SENSOR_PIN :: pin where "SOIL_SENSOR_PIN \<equiv> WB_A1"
abbreviation MLX_POWER_PIN :: pin where "MLX_POWER_PIN \<equiv> WB_IO4"

datatype pin_level = LOW | HIGH

datatype pin_mode = INPUT | OUTPUT

datatype mlx_status = SENSOR_SUCCESS | SENSOR_FAILURE nat

datatype lmh_error_status = LMH_SUCCESS | LMH_FAILURE int

datatype lmh_confirm = LMH_UNCONFIRMED_MSG | LMH_CONFIRMED_MSG

datatype DeviceClass = CLASS_A | CLASS_B | CLASS_C

record lmh_app_data =
  buffer :: "8 word list"
  buffsize :: "8 word"
  port :: "8 word"
  rssi :: "16 word"
  snr :: "8 word"

text \<open>
  What the sketch does to the outside, in order. Of the diagnostic stream only the lines
  printed inside the two halting loops are recorded; every other \<^verbatim>\<open>Serial.print\<close>
  is write-only text and is left out.
\<close>

datatype event =
    SerialPrintln string
  | PinMode pin pin_mode
  | DigitalWrite pin pin_level
  | Delay nat
  | AnalogRead pin
  | WireBegin
  | WireSetClock nat
  | MlxBegin "8 word"
  | MlxGetObjectTemp
  | BoardGetBatteryLevel
  | LoraRak4630Init
  | LmhInit
  | LmhSetDevEui
  | LmhSetAppEui
  | LmhSetAppKey
  | LmhJoin
  | LmhClassRequest DeviceClass
  | LmhSend lmh_app_data lmh_confirm
  | RadioIrqProcess

text \<open>
  The global variables (and the static \<^verbatim>\<open>lastStatusPrint\<close> of \<^verbatim>\<open>loop\<close>).
  \<^verbatim>\<open>unsigned long\<close> is a 32-bit word.
\<close>

record globals =
  mlxSensorAvailable :: bool
  lastSensorRead :: "32 word"
  lastJoinAttempt :: "32 word"
  joinInProgress :: bool
  joinAttempts :: int
  lastStatusPrint :: "32 word"

definition initial_globals :: globals where
  "initial_globals =
     \<lparr>mlxSensorAvailable = False, lastSensorRead = 0, lastJoinAttempt = 0,
      joinInProgress = False, joinAttempts = 0, lastStatusPrint = 0\<rparr>"

definition SENSOR_INTERVAL :: "32 word" where
  "SENSOR_INTERVAL = 60000"

definition JOIN_RETRY_INTERVAL :: "32 word" where
  "JOIN_RETRY_INTERVAL = 120000"

section \<open>Sampling and sending: \<^verbatim>\<open>send_lora_frame\<close>\<close>

text \<open>
  What one call of \<^verbatim>\<open>send_lora_frame\<close> reads from the hardware: the result of the
  \<open>i\<close>-th \<^verbatim>\<open>analogRead\<close> (a \<^verbatim>\<open>uint32_t\<close>), of \<^verbatim>\<open>mlx.getObjectTemp()\<close>, of
  \<^verbatim>\<open>BoardGetBatteryLevel()\<close> (a \<^verbatim>\<open>uint8_t\<close>) and of \<^verbatim>\<open>lmh_send\<close>.
\<close>

record frame_env =
  analogRead :: "nat \<Rightarrow> 32 word"
  getObjectTemp :: f32
  batteryLevel :: "8 word"
  lmh_send_status :: lmh_error_status

text \<open>
  \<^verbatim>\<open>for (int i = 0; i < 5; i++) { soilSum += analogRead(SOIL_SENSOR_PIN); delay(100); }\<close>
\<close>

function soil_loop :: "(nat \<Rightarrow> 32 word) \<Rightarrow> nat \<Rightarrow> int \<Rightarrow> event list \<Rightarrow> int \<times> event list" where
  "soil_loop rd i soilSum tr =
     (if i < 5
      then soil_loop rd (i + 1) (int32 (soilSum + uint (rd i)))
             (tr @ [AnalogRead SOIL_SENSOR_PIN, Delay 100])
      else (soilSum, tr))"
  by pat_completeness auto
termination
  by (relation "measure (\<lambda>(rd, i, soilSum, tr). 5 - i)") auto

text \<open>
  \<^verbatim>\<open>constrain(amt, low, high)\<close> is the Arduino core's macro
  \<^verbatim>\<open>((amt)<(low)?(low):((amt)>(high)?(high):(amt)))\<close>, here on a \<^verbatim>\<open>float\<close> and two
  \<^verbatim>\<open>int\<close> constants.
\<close>

definition constrain :: "f32 \<Rightarrow> int \<Rightarrow> int \<Rightarrow> f32" where
  "constrain amt low high =
     (if f32_lt amt (f32_of_int low) then f32_of_int low
      else if f32_gt amt (f32_of_int high) then f32_of_int high
      else amt)"

text \<open>
  \<^verbatim>\<open>float soilMoisture = map(soilRaw, 3000, 1300, 0, 100);\<close>
  \<^verbatim>\<open>soilMoisture = constrain(soilMoisture, 0, 100);\<close>
\<close>

definition soil_moisture :: "int \<Rightarrow> f32" where
  "soil_moisture soilRaw = constrain (f32_of_int (map_long soilRaw 3000 1300 0 100)) 0 100"

text \<open>Lines 279 to 294: power the soil sensor, read, average, rescale.\<close>

definition read_soil :: "frame_env \<Rightarrow> int \<times> f32 \<times> event list" where
  "read_soil env =
     (let (soilSum, tr) = soil_loop (analogRead env) 0 0 [DigitalWrite SOIL_POWER_PIN HIGH, Delay 1000];
          soilRaw = soilSum sdiv 5
      in (soilRaw, soil_moisture soilRaw, tr @ [DigitalWrite SOIL_POWER_PIN LOW]))"

text \<open>The fallback \<^verbatim>\<open>float objectTemp = 25.0;\<close>\<close>

definition default_temp :: f32 where
  "default_temp = Fin 25 0"

text \<open>Lines 303 to 322: the object temperature, or the fallback.\<close>

definition read_temp :: "frame_env \<Rightarrow> globals \<Rightarrow> f32 \<times> event list" where
  "read_temp env g =
     (if mlxSensorAvailable g
      then let temp = getObjectTemp env;
               objectTemp =
                 (if \<not> isnan temp \<and> f32_gt temp (f32_of_int (- 40)) \<and> f32_lt temp (f32_of_int 85)
                  then temp else default_temp)
           in (objectTemp,
               [DigitalWrite MLX_POWER_PIN LOW, Delay 500, MlxGetObjectTemp,
                DigitalWrite MLX_POWER_PIN HIGH])
      else (default_temp, []))"

text \<open>
  Lines 336 to 341. The operands of \<^verbatim>\<open>>>\<close> and \<^verbatim>\<open>&\<close> are promoted to \<^verbatim>\<open>int\<close>: an
  unsigned 16-bit value by \<open>uint\<close>, the signed \<^verbatim>\<open>int16_t tempValue\<close> by \<open>sint\<close>
  (the shift of a negative value is arithmetic). Storing into a \<^verbatim>\<open>uint8_t\<close> keeps the
  low eight bits.
\<close>

definition pack :: "16 word \<Rightarrow> 16 word \<Rightarrow> 16 word \<Rightarrow> 8 word list" where
  "pack soilValue tempValue battValue =
     [word_of_int (drop_bit 8 (uint soilValue) AND 255),
      word_of_int (uint soilValue AND 255),
      word_of_int (drop_bit 8 (sint tempValue) AND 255),
      word_of_int (sint tempValue AND 255),
      word_of_int (drop_bit 8 (uint battValue) AND 255),
      word_of_int (uint battValue AND 255)]"

text \<open>
  Lines 332 to 334: the three fixed-point values. Each conversion is undefined behaviour
  when the product does not fit the destination; then there is no value.
\<close>

definition soil_value :: "f32 \<Rightarrow> 16 word option" where
  "soil_value soilMoisture = f32_to_uint16 (f32_mul soilMoisture (f32_of_int 100))"

definition temp_value :: "f32 \<Rightarrow> 16 word option" where
  "temp_value objectTemp = f32_to_int16 (f32_mul objectTemp (f32_of_int 100))"

definition batt_value :: "f32 \<Rightarrow> 16 word option" where
  "batt_value battery = f32_to_uint16 (f32_mul battery (f32_of_int 100))"

definition payload :: "f32 \<Rightarrow> f32 \<Rightarrow> f32 \<Rightarrow> 8 word list option" where
  "payload soilMoisture objectTemp battery =
     (case soil_value soilMoisture of
        None \<Rightarrow> None
      | Some soilValue \<Rightarrow>
          (case temp_value objectTemp of
             None \<Rightarrow> None
           | Some tempValue \<Rightarrow>
               (case batt_value battery of
                  None \<Rightarrow> None
                | Some battValue \<Rightarrow> Some (pack soilValue tempValue battValue))))"

text \<open>
  Lines 272 to 361. \<^verbatim>\<open>float batteryLevel = BoardGetBatteryLevel();\<close> converts the
  \<^verbatim>\<open>uint8_t\<close> to \<^verbatim>\<open>float\<close>. The status \<^verbatim>\<open>lmh_send\<close> returns is only printed.
\<close>

definition send_lora_frame :: "frame_env \<Rightarrow> globals \<Rightarrow> event list option" where
  "send_lora_frame env g =
     (let (soilRaw, soilMoisture, tr1) = read_soil env;
          (objectTemp, tr2) = read_temp env g;
          battery = f32_of_int (uint (batteryLevel env))
      in case payload soilMoisture objectTemp battery of
           None \<Rightarrow> None
         | Some data \<Rightarrow>
             Some (tr1 @ tr2 @
               [BoardGetBatteryLevel,
                LmhSend \<lparr>buffer = data, buffsize = 6, port = 2, rssi = 0, snr = 0\<rparr>
                  LMH_UNCONFIRMED_MSG]))"

section \<open>Join supervision: the callbacks and \<^verbatim>\<open>loop\<close>\<close>

text \<open>
  \<^verbatim>\<open>lorawan_has_joined_handler\<close>, called by the stack; \<open>now\<close> is what
  \<^verbatim>\<open>millis()\<close> returns at line 375. The subtraction is that of \<^verbatim>\<open>unsigned long\<close>.
\<close>

definition lorawan_has_joined_handler :: "32 word \<Rightarrow> globals \<Rightarrow> globals \<times> event list" where
  "lorawan_has_joined_handler now g =
     (g\<lparr>joinInProgress := False, lastSensorRead := now - SENSOR_INTERVAL\<rparr>,
      [LmhClassRequest CLASS_A])"

text \<open>\<^verbatim>\<open>lorawan_join_failed_handler\<close>: it only clears the flag (and prints).\<close>

definition lorawan_join_failed_handler :: "globals \<Rightarrow> globals \<times> event list" where
  "lorawan_join_failed_handler g = (g\<lparr>joinInProgress := False\<rparr>, [])"

text \<open>
  What one pass of \<^verbatim>\<open>loop\<close> observes, call by call: \<^verbatim>\<open>lmh_join_status_get()\<close> at
  line 235 and at line 250, \<^verbatim>\<open>millis()\<close> at lines 236, 245, 250, 252, 257 and 266, and
  the readings of the frame. The calls that only feed the status print are left out.
\<close>

record loop_env =
  join_status_235 :: bool
  millis_236 :: "32 word"
  millis_245 :: "32 word"
  join_status_250 :: bool
  millis_250 :: "32 word"
  frame :: frame_env
  millis_252 :: "32 word"
  millis_257 :: "32 word"
  millis_266 :: "32 word"

text \<open>Lines 235 to 247: the retry of the join.\<close>

definition retry_join :: "loop_env \<Rightarrow> globals \<Rightarrow> globals \<times> event list" where
  "retry_join env g =
     (if \<not> join_status_235 env \<and> \<not> joinInProgress g \<and>
         millis_236 env - lastJoinAttempt g > JOIN_RETRY_INTERVAL
      then (g\<lparr>joinAttempts := int32 (joinAttempts g + 1), joinInProgress := True,
               lastJoinAttempt := millis_245 env\<rparr>,
            [LmhJoin])
      else (g, []))"

text \<open>Lines 250 to 253: the send cadence.\<close>

definition send_due :: "loop_env \<Rightarrow> globals \<Rightarrow> bool" where
  "send_due env g = (join_status_250 env \<and> millis_250 env - lastSensorRead g \<ge> SENSOR_INTERVAL)"

definition send_if_due :: "loop_env \<Rightarrow> globals \<Rightarrow> (globals \<times> event list) option" where
  "send_if_due env g =
     (if send_due env g
      then (case send_lora_frame (frame env) g of
              None \<Rightarrow> None
            | Some tr \<Rightarrow> Some (g\<lparr>lastSensorRead := millis_252 env\<rparr>, tr))
      else Some (g, []))"

text \<open>Lines 256 to 267: the periodic status print keeps only its time stamp.\<close>

definition status_print :: "loop_env \<Rightarrow> globals \<Rightarrow> globals" where
  "status_print env g =
     (if millis_257 env - lastStatusPrint g > 30000
      then g\<lparr>lastStatusPrint := millis_266 env\<rparr> else g)"

text \<open>One pass of \<^verbatim>\<open>loop\<close>. It has no result when the frame's conversions are undefined.\<close>

definition loop :: "loop_env \<Rightarrow> globals \<Rightarrow> (globals \<times> event list) option" where
  "loop env g =
     (let (g1, tr1) = retry_join env g
      in case send_if_due env g1 of
           None \<Rightarrow> None
         | Some (g2, tr2) \<Rightarrow>
             Some (status_print env g2, [RadioIrqProcess] @ tr1 @ tr2 @ [Delay 100]))"

section \<open>Initialization: \<^verbatim>\<open>setup\<close>\<close>

text \<open>
  What \<^verbatim>\<open>setup\<close> observes: the \<open>i\<close>-th test of \<^verbatim>\<open>Serial\<close>, the result of
  \<^verbatim>\<open>mlx.begin\<close> (its return value and the status it stores) in a given round at a
  given address, and the results of \<^verbatim>\<open>lora_rak4630_init\<close>, \<^verbatim>\<open>lmh_init\<close> and
  \<^verbatim>\<open>millis\<close> (line 215).
\<close>

record setup_env =
  serial_ready :: "nat \<Rightarrow> bool"
  mlx_begin :: "nat \<Rightarrow> 8 word \<Rightarrow> bool \<times> mlx_status"
  lora_rak4630_init :: int
  lmh_init :: lmh_error_status
  millis_215 :: "32 word"

text \<open>
  The two loops of \<^verbatim>\<open>setup\<close> that may run forever take fuel, one unit for each pass.
  \<^verbatim>\<open>while (!Serial) { delay(10); }\<close> gives back the fuel that is left, or \<open>None\<close>
  when it ran out before \<^verbatim>\<open>Serial\<close> was ready.
\<close>

fun wait_serial :: "nat \<Rightarrow> (nat \<Rightarrow> bool) \<Rightarrow> nat \<Rightarrow> event list \<Rightarrow> event list \<times> nat option" where
  "wait_serial 0 ready i tr = (if ready i then (tr, Some 0) else (tr, None))"
| "wait_serial (Suc n) ready i tr =
     (if ready i then (tr, Some (Suc n)) else wait_serial n ready (i + 1) (tr @ [Delay 10]))"

text \<open>
  \<^verbatim>\<open>while(1) { Serial.println(line); delay(10000); }\<close> has no exit: all that is left
  of it when the fuel runs out is its output.
\<close>

fun halt_loop :: "nat \<Rightarrow> string \<Rightarrow> event list \<Rightarrow> event list" where
  "halt_loop 0 line tr = tr"
| "halt_loop (Suc n) line tr = halt_loop n line (tr @ [SerialPrintln line, Delay 10000])"

definition addresses :: "8 word list" where
  "addresses = [0x3A, 0x3B]"

text \<open>
  Lines 102 to 113, the inner loop over the two addresses; \<open>begin\<close> is \<^verbatim>\<open>mlx.begin\<close>
  in the current round. The result is \<^verbatim>\<open>sensorSuccess\<close>.
\<close>

function probe_addr :: "(8 word \<Rightarrow> bool \<times> mlx_status) \<Rightarrow> nat \<Rightarrow> event list \<Rightarrow> bool \<times> event list" where
  "probe_addr begin_at addr tr =
     (if addr < 2
      then let (ok, sensorStatus) = begin_at (addresses ! addr);
               tr' = tr @ [MlxBegin (addresses ! addr)]
           in if ok \<and> sensorStatus = SENSOR_SUCCESS then (True, tr')
              else probe_addr begin_at (addr + 1) tr'
      else (False, tr))"
  by pat_completeness auto
termination
  by (relation "measure (\<lambda>(begin_at, addr, tr). 2 - addr)") auto

text \<open>
  Lines 94 to 119, the three rounds. \<^verbatim>\<open>mlxSensorAvailable\<close> and \<^verbatim>\<open>sensorSuccess\<close>
  are set together, and the round that sets them is the last.
\<close>

function probe_rounds :: "setup_env \<Rightarrow> nat \<Rightarrow> globals \<Rightarrow> event list \<Rightarrow> globals \<times> event list" where
  "probe_rounds env attempt g tr =
     (if attempt < 3
      then let (sensorSuccess, tr') = probe_addr (mlx_begin env attempt) 0 tr
           in if sensorSuccess then (g\<lparr>mlxSensorAvailable := True\<rparr>, tr')
              else probe_rounds env (attempt + 1) g (tr' @ [Delay 500])
      else (g, tr))"
  by pat_completeness auto
termination
  by (relation "measure (\<lambda>(env, attempt, g, tr). 3 - attempt)") auto

definition halt_line_radio :: string where
  "halt_line_radio = ''   Halted due to LoRa hardware failure''"

definition halt_line_stack :: string where
  "halt_line_stack = ''   Halted due to LoRaWAN stack failure''"

text \<open>
  Lines 69 to 141: the pins, the I2C bus, the probe of the temperature sensor with its
  test reading, and the call of \<^verbatim>\<open>lora_rak4630_init\<close>.
\<close>

definition init_sensors :: "setup_env \<Rightarrow> globals \<Rightarrow> event list \<Rightarrow> globals \<times> event list" where
  "init_sensors env g tr0 =
     (let tr1 = tr0 @
            [PinMode SOIL_POWER_PIN OUTPUT, DigitalWrite SOIL_POWER_PIN LOW,
             PinMode SOIL_SENSOR_PIN INPUT, PinMode MLX_POWER_PIN OUTPUT,
             DigitalWrite MLX_POWER_PIN HIGH, WireBegin, WireSetClock 100000,
             DigitalWrite MLX_POWER_PIN LOW, Delay 1000];
          (g1, tr2) = probe_rounds env 0 g tr1
      in (g1, tr2 @ (if mlxSensorAvailable g1 then [MlxGetObjectTemp] else []) @
                [DigitalWrite MLX_POWER_PIN HIGH, LoraRak4630Init]))"

text \<open>
  \<^verbatim>\<open>setup\<close> (the name is reserved here, hence \<open>setup_fn\<close>), with its output so
  far. The second component is the globals it returns with, or \<open>None\<close> when the fuel
  ran out inside one of its loops.
\<close>

definition setup_fn :: "nat \<Rightarrow> setup_env \<Rightarrow> globals \<Rightarrow> event list \<times> globals option" where
  "setup_fn fuel env g =
     (case wait_serial fuel (serial_ready env) 0 [] of
        (tr0, None) \<Rightarrow> (tr0, None)
      | (tr0, Some fuel') \<Rightarrow>
          let (g1, tr3) = init_sensors env g tr0
          in if lora_rak4630_init env \<noteq> 0 then (halt_loop fuel' halt_line_radio tr3, None)
             else if lmh_init env \<noteq> LMH_SUCCESS
               then (halt_loop fuel' halt_line_stack (tr3 @ [LmhInit]), None)
             else (tr3 @ [LmhInit, LmhSetDevEui, LmhSetAppEui, LmhSetAppKey, LmhJoin],
                   Some (g1\<lparr>joinInProgress := True, joinAttempts := 1,
                            lastJoinAttempt := millis_215 env\<rparr>)))"

section \<open>The whole sketch\<close>

text \<open>
  The Arduino core calls \<^verbatim>\<open>setup()\<close> once and then \<^verbatim>\<open>loop()\<close> again and again:
  here for as many passes as there are observations, unless \<^verbatim>\<open>setup\<close> has not
  returned. The result is the output and the number of passes of \<^verbatim>\<open>loop\<close> begun.
\<close>

fun run_loops :: "loop_env list \<Rightarrow> globals \<Rightarrow> event list \<Rightarrow> nat \<Rightarrow> event list \<times> nat" where
  "run_loops [] g tr n = (tr, n)"
| "run_loops (env # envs) g tr n =
     (case loop env g of
        None \<Rightarrow> (tr, Suc n)
      | Some (g', tr') \<Rightarrow> run_loops envs g' (tr @ tr') (Suc n))"

definition sketch :: "nat \<Rightarrow> setup_env \<Rightarrow> loop_env list \<Rightarrow> event list \<times> nat" where
  "sketch fuel senv lenvs =
     (case setup_fn fuel senv initial_globals of
        (tr, None) \<Rightarrow> (tr, 0)
      | (tr, Some g) \<Rightarrow> run_loops lenvs g tr 0)"

section \<open>Notions used to state the properties\<close>

text \<open>A float that is a number strictly between \<open>- 40\<close> and \<open>85\<close>.\<close>

definition temp_in_range :: "f32 \<Rightarrow> bool" where
  "temp_in_range t =
     (case t of Fin m e \<Rightarrow> - 40 < f32_real m e \<and> f32_real m e < 85 | _ \<Rightarrow> False)"

text \<open>The uplinks among the events.\<close>

fun is_uplink :: "event \<Rightarrow> bool" where
  "is_uplink (LmhSend d c) = True"
| "is_uplink ev = False"

text \<open>What reading the soil sensor does: power, five spaced readings, power off.\<close>

definition soil_events :: "event list" where
  "soil_events =
     [DigitalWrite SOIL_POWER_PIN HIGH, Delay 1000] @
     concat (replicate 5 [AnalogRead SOIL_SENSOR_PIN, Delay 100]) @
     [DigitalWrite SOIL_POWER_PIN LOW]"

text \<open>
  The probes of the temperature sensor in the order of the two nested loops, as pairs of
  round and address, and whether a probe reports success.
\<close>

definition probe_schedule :: "(nat \<times> 8 word) list" where
  "probe_schedule = [(0, 0x3A), (0, 0x3B), (1, 0x3A), (1, 0x3B), (2, 0x3A), (2, 0x3B)]"

definition probe_ok :: "setup_env \<Rightarrow> nat \<times> 8 word \<Rightarrow> bool" where
  "probe_ok env p = (mlx_begin env (fst p) (snd p) = (True, SENSOR_SUCCESS))"

text \<open>The addresses probed, in order, among the events.\<close>

fun probed :: "event list \<Rightarrow> 8 word list" where
  "probed [] = []"
| "probed (MlxBegin a # evs) = a # probed evs"
| "probed (ev # evs) = probed evs"

text \<open>The events that are neither radio traffic nor a printed line.\<close>

fun quiet :: "event \<Rightarrow> bool" where
  "quiet LmhJoin = False"
| "quiet (LmhSend d c) = False"
| "quiet RadioIrqProcess = False"
| "quiet (SerialPrintln line) = False"
| "quiet ev = True"

text \<open>Concrete observations, for the examples.\<close>

definition example_frame :: frame_env where
  "example_frame =
     \<lparr>analogRead = (\<lambda>i. 2000), getObjectTemp = Fin 11141119 (- 17), batteryLevel = 200,
      lmh_send_status = LMH_SUCCESS\<rparr>"

definition example_loop :: loop_env where
  "example_loop =
     \<lparr>join_status_235 = True, millis_236 = 7000, millis_245 = 7000, join_status_250 = True,
      millis_250 = 7000, frame = example_frame, millis_252 = 9000, millis_257 = 9001,
      millis_266 = 9002\<rparr>"

definition example_setup :: setup_env where
  "example_setup =
     \<lparr>serial_ready = (\<lambda>i. 2 \<le> i),
      mlx_begin = (\<lambda>attempt addr. (attempt = 1 \<and> addr = 0x3B, SENSOR_SUCCESS)),
      lora_rak4630_init = 0, lmh_init = LMH_SUCCESS, millis_215 = 5000\<rparr>"

section \<open>Arithmetic facts\<close>

text \<open>The equations of the counted loops are unfolded by hand, a pass at a time.\<close>

declare soil_loop.simps [simp del] probe_addr.simps [simp del] probe_rounds.simps [simp del]

lemma int32_id: "- 2147483648 \<le> k \<Longrightarrow> k < 2147483648 \<Longrightarrow> int32 k = k"
  by (simp add: int32_def signed_take_bit_int_eq_self)

lemma int32_range: "- 2147483648 \<le> int32 k \<and> int32 k < 2147483648"
  unfolding int32_def
  using signed_take_bit_int_greater_eq_minus_exp [of 31 k] signed_take_bit_int_less_exp [of 31 k]
  by simp

lemma sdiv_minus_1700:
  "a sdiv (- 1700) = (if a \<le> 0 then (- a) div 1700 else - (a div 1700))" for a :: int
  by (cases "a = 0") (auto simp add: signed_divide_int_def sgn_if)

lemma sdiv_5_nonneg: "0 \<le> a \<Longrightarrow> a sdiv 5 = a div 5" for a :: int
  by (cases "a = 0") (auto simp add: signed_divide_int_def sgn_if)

text \<open>A value of at most 24 bits and a float's exponent is its own rounding.\<close>

lemma f32_round_exact:
  assumes "\<bar>M\<bar> < 2 ^ 24" and "- 149 \<le> E" and "E \<le> 104"
  shows "f32_round M E = Fin M E"
proof -
  have "bitlen \<bar>M\<bar> \<le> 24"
    using assms(1) by (simp add: bitlen_le_iff_power)
  then have k: "nat (max 0 (max (bitlen \<bar>M\<bar> - 24) (- 149 - E))) = 0"
    using assms(2) by simp
  have "\<bar>M\<bar> * 2 ^ nat (E + 149) < 2 ^ 24 * 2 ^ nat (E + 149)"
    using assms(1) by simp
  also have "\<dots> \<le> 2 ^ 24 * (2::int) ^ 253"
    using assms(3) by (intro mult_left_mono power_increasing) auto
  finally have "\<not> 2 ^ 277 \<le> \<bar>M\<bar> * 2 ^ nat (E + 149)"
    by simp
  then show ?thesis
    unfolding f32_round_def k by (simp add: rne_def Let_def)
qed

lemma f32_of_int_exact: "\<bar>k\<bar> < 2 ^ 24 \<Longrightarrow> f32_of_int k = Fin k 0"
  by (simp add: f32_of_int_def f32_round_exact)

section \<open>The soil reading\<close>

lemma map_long_soil:
  assumes "0 \<le> raw" and "raw \<le> 65535"
  shows "map_long raw 3000 1300 0 100 =
           (if raw \<le> 3000 then ((3000 - raw) * 100) div 1700
            else - (((raw - 3000) * 100) div 1700))"
proof -
  define P where "P = (raw - 3000) * 100"
  define Q where "Q = P sdiv (- 1700)"
  have a: "int32 (raw - 3000) = raw - 3000"
    using assms by (intro int32_id) auto
  have b: "int32 P = P"
    unfolding P_def using assms by (intro int32_id) auto
  have e: "int32 (100 - 0) = 100" "int32 (1300 - 3000) = - 1700"
    by (simp_all add: int32_id)
  have Q: "Q = (if raw \<le> 3000 then ((3000 - raw) * 100) div 1700
                else - (((raw - 3000) * 100) div 1700))"
    unfolding Q_def sdiv_minus_1700 P_def by (simp add: algebra_simps)
  have "- 2147483648 \<le> Q \<and> Q < 2147483648"
    unfolding Q using assms by auto
  then have c: "int32 Q = Q"
    by (simp add: int32_id)
  have "map_long raw 3000 1300 0 100 = int32 (int32 (int32 P sdiv (- 1700)) + 0)"
    unfolding map_long_def a e P_def ..
  also have "\<dots> = int32 (int32 Q + 0)"
    unfolding b Q_def ..
  also have "\<dots> = Q"
    by (simp add: c)
  finally show ?thesis
    unfolding Q .
qed

lemma soil_moisture_value:
  assumes "0 \<le> raw" and "raw \<le> 65535"
  shows "soil_moisture raw =
           Fin (if 3000 \<le> raw then 0 else if raw \<le> 1300 then 100
                else ((3000 - raw) * 100) div 1700) 0"
proof -
  let ?p = "map_long raw 3000 1300 0 100"
  have p: "?p = (if raw \<le> 3000 then ((3000 - raw) * 100) div 1700
                 else - (((raw - 3000) * 100) div 1700))"
    using assms by (rule map_long_soil)
  have bound: "\<bar>?p\<bar> < 2 ^ 24"
    using assms unfolding p by auto
  have fp: "f32_of_int ?p = Fin ?p 0"
    using bound by (rule f32_of_int_exact)
  have lims: "f32_of_int 0 = Fin 0 0" "f32_of_int 100 = Fin 100 0"
    by (simp_all add: f32_of_int_exact)
  have sm: "soil_moisture raw = Fin (if ?p < 0 then 0 else if 100 < ?p then 100 else ?p) 0"
    by (simp add: soil_moisture_def constrain_def fp lims f32_gt_def)
  consider "3000 \<le> raw" | "raw \<le> 1300" | "1300 < raw" "raw < 3000"
    by linarith
  then show ?thesis
  proof cases
    case 1
    then have "?p \<le> 0" unfolding p using assms by auto
    moreover have "?p = 0" if "raw = 3000" using that unfolding p by simp
    ultimately show ?thesis using 1 unfolding sm by auto
  next
    case 2
    then have "100 \<le> ?p" unfolding p using assms by auto
    then show ?thesis using 2 unfolding sm by auto
  next
    case 3
    then have "0 \<le> ?p" "?p < 100" "?p = ((3000 - raw) * 100) div 1700"
      unfolding p by auto
    then show ?thesis using 3 unfolding sm by auto
  qed
qed

lemma replicate_5_pair: "concat (replicate 5 [a, b]) = [a, b, a, b, a, b, a, b, a, b]"
  by (simp add: numeral_eq_Suc)

lemma soil_loop_unroll:
  "soil_loop rd 0 s tr =
     (int32 (int32 (int32 (int32 (int32 (s + uint (rd 0)) + uint (rd 1)) + uint (rd 2))
        + uint (rd 3)) + uint (rd 4)),
      tr @ concat (replicate 5 [AnalogRead SOIL_SENSOR_PIN, Delay 100]))"
  apply (subst soil_loop.simps, simp)
  apply (subst soil_loop.simps, simp)
  apply (subst soil_loop.simps, simp)
  apply (subst soil_loop.simps, simp)
  apply (subst soil_loop.simps, simp)
  apply (subst soil_loop.simps, simp add: replicate_5_pair numeral_2_eq_2 [symmetric])
  done

section \<open>Bytes of the payload\<close>

lemma bit_255_int: "bit (255 :: int) n \<longleftrightarrow> n < 8"
proof -
  have "(255 :: int) = mask 8"
    by (simp add: mask_eq_exp_minus_1)
  then show ?thesis
    by (simp only: bit_mask_iff) simp
qed

lemma word_cat_hi_lo_uint:
  "word_cat (word_of_int (drop_bit 8 (uint v) AND 255) :: 8 word)
     (word_of_int (uint v AND 255) :: 8 word) = v"
  for v :: "16 word"
  by (rule bit_word_eqI) (auto simp add: bit_simps bit_255_int)

lemma word_cat_hi_lo_sint:
  "word_cat (word_of_int (drop_bit 8 (sint v) AND 255) :: 8 word)
     (word_of_int (sint v AND 255) :: 8 word) = v"
  for v :: "16 word"
  by (rule bit_word_eqI) (auto simp add: bit_simps bit_255_int)

text \<open>\<open>word_cat\<close> puts its first byte above its second.\<close>

lemma uint_word_cat_8_8:
  "uint (word_cat a b :: 16 word) = uint a * 256 + uint b" for a b :: "8 word"
proof -
  have a: "uint a < 256" and b: "uint b < 256"
    using uint_bounded [of a] uint_bounded [of b] by simp_all
  have c: "0 \<le> uint a" "0 \<le> uint b"
    by simp_all
  have "uint (word_cat a b :: 16 word) = (uint a * 256 + uint b) mod 65536"
    by (simp add: word_cat_eq uint_word_ariths unsigned_push_bit_eq push_bit_eq_mult
        unsigned_ucast_eq take_bit_eq_mod mod_simps)
  also have "\<dots> = uint a * 256 + uint b"
    using a b c by simp
  finally show ?thesis .
qed

lemma sint_word_of_int_16:
  "- 32768 \<le> t \<Longrightarrow> t \<le> 32767 \<Longrightarrow> sint (word_of_int t :: 16 word) = t"
  by (simp add: signed_of_int signed_take_bit_int_eq_self)

lemma uint_word_of_int_16:
  "0 \<le> t \<Longrightarrow> t \<le> 65535 \<Longrightarrow> uint (word_of_int t :: 16 word) = t"
  by (simp add: uint_word_of_int)

lemma read_soil_value:
  assumes "\<forall>i<5. uint (analogRead env i) \<le> 65535"
  shows "read_soil env =
           (let soilRaw = (uint (analogRead env 0) + uint (analogRead env 1) + uint (analogRead env 2)
                  + uint (analogRead env 3) + uint (analogRead env 4)) div 5
            in (soilRaw, soil_moisture soilRaw, soil_events))"
proof -
  let ?r = "\<lambda>i. uint (analogRead env i)"
  have r: "0 \<le> ?r 0" "0 \<le> ?r 1" "0 \<le> ?r 2" "0 \<le> ?r 3" "0 \<le> ?r 4"
    by simp_all
  have b: "?r 0 \<le> 65535" "?r 1 \<le> 65535" "?r 2 \<le> 65535" "?r 3 \<le> 65535" "?r 4 \<le> 65535"
    using assms by simp_all
  have 1: "int32 (0 + ?r 0) = ?r 0"
    by (rule int32_id [THEN trans]) (use b r in linarith)+
  have 2: "int32 (?r 0 + ?r 1) = ?r 0 + ?r 1"
    by (rule int32_id) (use b r in linarith)+
  have 3: "int32 (?r 0 + ?r 1 + ?r 2) = ?r 0 + ?r 1 + ?r 2"
    by (rule int32_id) (use b r in linarith)+
  have 4: "int32 (?r 0 + ?r 1 + ?r 2 + ?r 3) = ?r 0 + ?r 1 + ?r 2 + ?r 3"
    by (rule int32_id) (use b r in linarith)+
  have 5: "int32 (?r 0 + ?r 1 + ?r 2 + ?r 3 + ?r 4) = ?r 0 + ?r 1 + ?r 2 + ?r 3 + ?r 4"
    by (rule int32_id) (use b r in linarith)+
  define S where "S = ?r 0 + ?r 1 + ?r 2 + ?r 3 + ?r 4"
  have sl: "soil_loop (analogRead env) 0 0 tr =
          (S, tr @ concat (replicate 5 [AnalogRead SOIL_SENSOR_PIN, Delay 100]))" for tr
    unfolding soil_loop_unroll 1 2 3 4 5 S_def ..
  have "0 \<le> S"
    unfolding S_def by simp
  then have sd: "S sdiv 5 = S div 5"
    by (rule sdiv_5_nonneg)
  show ?thesis
    unfolding read_soil_def sl S_def [symmetric] by (simp add: sd soil_events_def)
qed

section \<open>Rounding\<close>

lemma rne_bounds: "M div 2 ^ k \<le> rne M k \<and> rne M k \<le> M div 2 ^ k + 1"
  by (simp add: rne_def Let_def)

lemma rne_near:
  "2 * M - 2 ^ k \<le> 2 * 2 ^ k * rne M k \<and> 2 * 2 ^ k * rne M k \<le> 2 * M + 2 ^ k"
proof (cases k)
  case 0
  then show ?thesis by (simp add: rne_def)
next
  case (Suc j)
  define P :: int where "P = 2 ^ k"
  define h :: int where "h = 2 ^ j"
  define q where "q = M div P"
  define r where "r = M mod P"
  have P: "P = 2 * h"
    by (simp add: P_def h_def Suc)
  have M: "M = q * P + r"
    by (simp add: q_def r_def)
  have r: "0 \<le> r" "r < P"
    by (simp_all add: r_def P_def)
  define R where "R = rne M k"
  have R: "R = (if h < r \<or> (r = h \<and> odd q) then q + 1 else q)"
    by (simp add: R_def rne_def Let_def Suc q_def r_def P_def h_def)
  have "2 * (q * P + r) - P \<le> 2 * P * R \<and> 2 * P * R \<le> 2 * (q * P + r) + P"
  proof (cases "h < r \<or> (r = h \<and> odd q)")
    case True
    then have "R = q + 1" "h \<le> r"
      by (auto simp add: R)
    then show ?thesis
      using r P by (simp add: algebra_simps)
  next
    case False
    then have "R = q" "r \<le> h"
      by (auto simp add: R)
    then show ?thesis
      using r P by (simp add: algebra_simps)
  qed
  then show ?thesis
    using M by (simp add: P_def R_def)
qed

lemma pos_big_rounds_big:
  assumes "2 ^ 24 \<le> x" and "x < 2147483648"
  shows "\<exists>R k. f32_of_int x \<in> {Infty False, Fin R (int k)} \<and> 2 ^ 23 \<le> R"
proof -
  define k where "k = nat (bitlen \<bar>x\<bar> - 24)"
  have x: "0 < x" "\<bar>x\<bar> = x" using assms by simp_all
  have "\<not> bitlen x \<le> 24"
    using assms by (simp add: bitlen_le_iff_power)
  then have bl: "bitlen x = 24 + int k"
    by (simp add: k_def x)
  have kk: "nat (max 0 (max (bitlen \<bar>x\<bar> - 24) (- 149 - 0))) = k"
    using bl by (simp add: x)
  have "2 ^ nat (bitlen x - 1) \<le> x"
    using bitlen_bounds [OF x(1)] by simp
  moreover have "nat (bitlen x - 1) = 23 + k"
    using bl by simp
  ultimately have "2 ^ 23 * 2 ^ k \<le> x"
    by (simp add: power_add)
  then have "(2 ^ 23 * 2 ^ k) div 2 ^ k \<le> x div 2 ^ k"
    by (intro zdiv_mono1) simp_all
  then have "2 ^ 23 \<le> x div 2 ^ k"
    by simp
  then have "2 ^ 23 \<le> rne x k"
    using rne_bounds [of x k] by linarith
  then show ?thesis
    unfolding f32_of_int_def f32_round_def kk by (auto simp add: Let_def)
qed


lemma neg_big_rounds_neg:
  assumes "x \<le> - (2 ^ 24)" and "- 2147483648 \<le> x"
  shows "\<exists>R k. f32_of_int x \<in> {Infty True, Fin R (int k)} \<and> R < 0"
proof -
  define k where "k = nat (bitlen \<bar>x\<bar> - 24)"
  have x: "0 < - x" "\<bar>x\<bar> = - x" using assms by simp_all
  have "\<not> bitlen (- x) \<le> 24"
    using assms by (simp add: bitlen_le_iff_power)
  then have bl: "bitlen (- x) = 24 + int k"
    by (simp add: k_def x)
  have kk: "nat (max 0 (max (bitlen \<bar>x\<bar> - 24) (- 149 - 0))) = k"
    using bl by (simp add: x)
  have "2 ^ nat (bitlen (- x) - 1) \<le> - x"
    using bitlen_bounds [OF x(1)] by simp
  moreover have "nat (bitlen (- x) - 1) = 23 + k"
    using bl by simp
  ultimately have "x \<le> (- 8388608) * 2 ^ k"
    by (simp add: power_add)
  then have "x div 2 ^ k \<le> ((- 8388608) * 2 ^ k) div 2 ^ k"
    by (intro zdiv_mono1) simp_all
  moreover have "(a * 2 ^ k) div 2 ^ k = a" for a :: int
    by simp
  ultimately have "x div 2 ^ k \<le> - 8388608"
    by (simp only:)
  then have "rne x k < 0"
    using rne_bounds [of x k] by linarith
  then show ?thesis
    unfolding f32_of_int_def f32_round_def kk by (auto simp add: Let_def)
qed

lemma constrain_whole:
  assumes "- 2147483648 \<le> x" and "x < 2147483648"
  shows "\<exists>p. 0 \<le> p \<and> p \<le> 100 \<and> constrain (f32_of_int x) 0 100 = Fin p 0"
proof -
  have lims: "f32_of_int 0 = Fin 0 0" "f32_of_int 100 = Fin 100 0"
    by (simp_all add: f32_of_int_exact)
  consider "\<bar>x\<bar> < 2 ^ 24" | "2 ^ 24 \<le> x" | "x \<le> - (2 ^ 24)"
    by linarith
  then show ?thesis
  proof cases
    case 1
    then have "constrain (f32_of_int x) 0 100 = Fin (if x < 0 then 0 else if 100 < x then 100 else x) 0"
      by (simp add: constrain_def lims f32_gt_def f32_of_int_exact)
    then show ?thesis by auto
  next
    case 2
    then obtain R k where "f32_of_int x \<in> {Infty False, Fin R (int k)}" "2 ^ 23 \<le> R"
      using pos_big_rounds_big assms by blast
    moreover have "(100::int) < R * 2 ^ k" if "2 ^ 23 \<le> R"
    proof -
      have "R * 1 \<le> R * 2 ^ k"
        using that by (intro mult_left_mono) simp_all
      then have "R \<le> R * 2 ^ k"
        by (simp only: mult_1_right)
      moreover from that have "8388608 \<le> R"
        by simp
      ultimately show ?thesis by linarith
    qed
    moreover have "\<not> R * 2 ^ k < 0" if "2 ^ 23 \<le> R"
      using that by (simp add: mult_less_0_iff)
    ultimately have "constrain (f32_of_int x) 0 100 = Fin 100 0"
      by (auto simp add: constrain_def lims f32_gt_def)
    then show ?thesis by simp
  next
    case 3
    then obtain R k where "f32_of_int x \<in> {Infty True, Fin R (int k)}" "R < 0"
      using neg_big_rounds_neg assms by blast
    moreover have "R * 2 ^ k < 0" if "R < 0"
      using that by (simp add: mult_less_0_iff)
    ultimately have "constrain (f32_of_int x) 0 100 = Fin 0 0"
      by (auto simp add: constrain_def lims f32_gt_def)
    then show ?thesis by simp
  qed
qed

lemma soil_moisture_whole: "\<exists>p. 0 \<le> p \<and> p \<le> 100 \<and> soil_moisture raw = Fin p 0"
  unfolding soil_moisture_def map_long_def
  using int32_range by (intro constrain_whole) auto

lemma percent_scaled:
  assumes "0 \<le> p" and "p \<le> 100"
  shows "f32_to_uint16 (f32_mul (Fin p 0) (f32_of_int 100)) = Some (word_of_int (p * 100))"
proof -
  have "f32_mul (Fin p 0) (f32_of_int 100) = Fin (p * 100) 0"
    using assms by (simp add: f32_of_int_exact f32_round_exact)
  moreover have "0 \<le> p * 100" "p * 100 \<le> 65535"
    using assms by simp_all
  ultimately show ?thesis
    by (simp add: f32_to_uint16_def)
qed

section \<open>The scaled temperature\<close>

lemma div_less_bound:
  fixes a B P :: int
  assumes "a < B * P" and "0 < P"
  shows "a div P < B"
proof (rule ccontr)
  assume "\<not> a div P < B"
  then have 1: "B * P \<le> (a div P) * P"
    using assms(2) by (intro mult_right_mono) simp_all
  have 2: "0 \<le> a mod P"
    using assms(2) by simp
  have 3: "(a div P) * P + a mod P = a"
    by simp
  show False
    using 1 2 3 assms(1) by linarith
qed

lemma trunc_upper:
  fixes R B :: int
  assumes "R < B * 2 ^ n" and "0 < B"
  shows "sgn R * (\<bar>R\<bar> div 2 ^ n) < B"
proof (cases "0 \<le> R")
  case True
  then have "\<bar>R\<bar> div 2 ^ n < B"
    using assms(1) by (intro div_less_bound) simp_all
  moreover have "sgn R * (\<bar>R\<bar> div 2 ^ n) \<le> \<bar>R\<bar> div 2 ^ n"
    using True by (cases "R = 0") (simp_all add: sgn_if)
  ultimately show ?thesis by linarith
next
  case False
  then have "sgn R * (\<bar>R\<bar> div 2 ^ n) = - (\<bar>R\<bar> div 2 ^ n)"
    by (simp add: sgn_if)
  moreover have "0 \<le> \<bar>R\<bar> div 2 ^ n"
    by (simp add: pos_imp_zdiv_nonneg_iff)
  ultimately show ?thesis using assms(2) by linarith
qed

lemma trunc_lower:
  fixes R B :: int
  assumes "- (B * 2 ^ n) < R" and "0 < B"
  shows "- B < sgn R * (\<bar>R\<bar> div 2 ^ n)"
proof (cases "0 \<le> R")
  case True
  then have "0 \<le> sgn R * (\<bar>R\<bar> div 2 ^ n)"
    by (cases "R = 0") (simp_all add: sgn_if pos_imp_zdiv_nonneg_iff)
  then show ?thesis using assms(2) by linarith
next
  case False
  then have "\<bar>R\<bar> div 2 ^ n < B"
    using assms(1) by (intro div_less_bound) simp_all
  moreover have "sgn R * (\<bar>R\<bar> div 2 ^ n) = - (\<bar>R\<bar> div 2 ^ n)"
    using False by (simp add: sgn_if)
  ultimately show ?thesis by linarith
qed


lemma temp_round_neg_exp:
  assumes m: "\<bar>m\<bar> < 2 ^ 24" and e: "- 149 \<le> e" "e < 0"
    and lo: "f32_lt (Fin (- 40) 0) (Fin m e)" and hi: "f32_lt (Fin m e) (Fin 85 0)"
  shows "\<exists>R k n'. f32_round (m * 100) e = Fin R (- int n') \<and> 1 \<le> n' \<and>
           nat (- e) = k + n' \<and> (k = 0 \<or> 10 \<le> n') \<and>
           R < 8500 * 2 ^ n' \<and> - (4000 * 2 ^ n') < R \<and>
           2 * (m * 100) - 2 ^ k \<le> 2 * 2 ^ k * R \<and> 2 * 2 ^ k * R \<le> 2 * (m * 100) + 2 ^ k"
proof -
  define n where "n = nat (- e)"
  have n: "1 \<le> n" "n \<le> 149" "e = - int n"
    using e by (simp_all add: n_def)
  have c: "min 0 e = e" "min e 0 = e"
    using e by simp_all
  have mlo: "- 40 * 2 ^ n < m" and mhi: "m < 85 * 2 ^ n"
    using lo hi by (simp_all add: c n_def)
  define M where "M = m * 100"
  define k where "k = nat (max 0 (bitlen \<bar>M\<bar> - 24))"
  have kk: "nat (max 0 (max (bitlen \<bar>M\<bar> - 24) (- 149 - e))) = k"
    using e by (simp add: k_def max_def)
  have "\<bar>M\<bar> < 2 ^ 31"
    using m by (simp add: M_def abs_mult)
  then have "bitlen \<bar>M\<bar> \<le> 31"
    by (simp add: bitlen_le_iff_power)
  then have k7: "k \<le> 7"
    by (simp add: k_def)
  have kn: "k < n \<and> (k = 0 \<or> 10 + k \<le> n)"
  proof (cases "k = 0")
    case True
    then show ?thesis using n by simp
  next
    case False
    then have bl: "bitlen \<bar>M\<bar> = 24 + int k"
      by (simp add: k_def max_def split: if_splits)
    then have "0 < \<bar>M\<bar>"
      using bitlen_eq_zero_iff [of "\<bar>M\<bar>"] by auto
    then have "2 ^ nat (bitlen \<bar>M\<bar> - 1) \<le> \<bar>M\<bar>"
      using bitlen_bounds [of "\<bar>M\<bar>"] by simp
    moreover have "nat (bitlen \<bar>M\<bar> - 1) = 23 + k"
      using bl by simp
    ultimately have "(2::int) ^ (23 + k) \<le> \<bar>M\<bar>"
      by simp
    also have "\<bar>M\<bar> < 8500 * 2 ^ n"
      using mlo mhi by (simp add: M_def abs_mult)
    also have "\<dots> \<le> (2::int) ^ 14 * 2 ^ n"
      by (intro mult_right_mono) simp_all
    also have "\<dots> = 2 ^ (14 + n)"
      by (simp add: power_add)
    finally have "23 + k < 14 + n"
      by (simp only: power_strict_increasing_iff [of "2::int"]) 
    then show ?thesis by simp
  qed
  define n' where "n' = n - k"
  define A :: int where "A = 2 ^ k"
  define B :: int where "B = 2 ^ n'"
  have n': "1 \<le> n'" "n = k + n'" "n' \<le> 149"
    using kn n by (auto simp add: n'_def)
  have far: "k = 0 \<or> 10 \<le> n'"
    using kn by (auto simp add: n'_def)
  have AB: "2 ^ n = A * B"
    by (simp add: A_def B_def n' power_add)
  have "(2::int) ^ k \<le> 2 ^ 7"
    using k7 by (intro power_increasing) simp_all
  then have A: "1 \<le> A" "A \<le> 128"
    by (simp_all add: A_def)
  have B: "0 < B"
    by (simp add: B_def)
  define R where "R = rne M k"
  define X where "X = A * R"
  define Y where "Y = A * B"
  have near: "2 * M - A \<le> 2 * X" "2 * X \<le> 2 * M + A"
    using rne_near [of M k] by (simp_all add: A_def R_def X_def algebra_simps)
  have my: "- 40 * Y < m" "m < 85 * Y"
    using mlo mhi by (simp_all add: AB Y_def)
  have "X < 8500 * Y" "- 4000 * Y < X"
    using near my A by (simp_all add: M_def)
  then have "A * R < A * (8500 * B)" "A * (- (4000 * B)) < A * R"
    by (simp_all add: X_def Y_def algebra_simps)
  moreover have "0 < A"
    using A by simp
  ultimately have Rb: "R < 8500 * B" "- (4000 * B) < R"
    by (simp_all only: mult_less_cancel_left_pos)
  have E': "e + int k = - int n'" "nat (e + int k + 149) = 149 - n'"
    using n n' by simp_all
  have "\<bar>R\<bar> < 8500 * B"
    using Rb B by linarith
  then have "\<bar>R\<bar> * 2 ^ (149 - n') < 8500 * B * 2 ^ (149 - n')"
    by (intro mult_strict_right_mono) simp_all
  also have "\<dots> = 8500 * 2 ^ 149"
    using n' by (simp add: B_def power_add [symmetric])
  also have "\<dots> < (2::int) ^ 277"
    by simp
  finally have no': "\<not> 2 ^ 277 \<le> \<bar>R\<bar> * 2 ^ (149 - n')"
    by simp
  have no: "\<not> 2 ^ 277 \<le> \<bar>R\<bar> * 2 ^ nat (e + int k + 149)"
    unfolding E'(2) by (fact no')
  have "f32_round (m * 100) e = Fin R (e + int k)"
    unfolding f32_round_def M_def [symmetric] kk Let_def R_def [symmetric] using no
    by (simp only: if_False)
  then have "f32_round (m * 100) e = Fin R (- int n')"
    by (simp only: E'(1))
  moreover have "2 * (m * 100) - 2 ^ k \<le> 2 * 2 ^ k * R" "2 * 2 ^ k * R \<le> 2 * (m * 100) + 2 ^ k"
    using rne_near [of M k] by (simp_all add: R_def M_def)
  moreover have "nat (- e) = k + n'"
    using n' by (simp add: n_def)
  ultimately show ?thesis
    using n'(1) far Rb unfolding B_def by blast
qed

lemma trunc_real:
  "sgn R * (\<bar>R\<bar> div 2 ^ n) =
     (if 0 \<le> real_of_int R / 2 ^ n then \<lfloor>real_of_int R / 2 ^ n\<rfloor>
      else \<lceil>real_of_int R / 2 ^ n\<rceil>)"
proof (cases "0 \<le> R")
  case True
  have "\<lfloor>real_of_int R / real_of_int (2 ^ n)\<rfloor> = R div 2 ^ n"
    by (rule floor_divide_of_int_eq)
  moreover have "sgn R * (\<bar>R\<bar> div 2 ^ n) = R div 2 ^ n"
    using True by (cases "R = 0") (simp_all add: sgn_if)
  moreover have "0 \<le> real_of_int R / 2 ^ n"
    using True by simp
  ultimately show ?thesis by simp
next
  case False
  have "\<lfloor>real_of_int (- R) / real_of_int (2 ^ n)\<rfloor> = (- R) div 2 ^ n"
    by (rule floor_divide_of_int_eq)
  then have "\<lceil>real_of_int R / 2 ^ n\<rceil> = - ((- R) div 2 ^ n)"
    by (simp add: ceiling_def)
  moreover have "sgn R * (\<bar>R\<bar> div 2 ^ n) = - ((- R) div 2 ^ n)"
    using False by (simp add: sgn_if)
  moreover have "real_of_int R / 2 ^ n < 0"
    using False by (intro divide_neg_pos) simp_all
  then have "\<not> 0 \<le> real_of_int R / 2 ^ n"
    by simp
  ultimately show ?thesis by simp
qed

lemma f32_real_neg_exp: "f32_real m (- int n) = real_of_int m / 2 ^ n"
  by (simp add: f32_real_def power_int_minus divide_inverse)

lemma f32_real_nonneg_exp: "0 \<le> e \<Longrightarrow> f32_real m e = real_of_int (m * 2 ^ nat e)"
  by (simp add: f32_real_def power_int_nonneg_exp)

lemma close_after_rounding:
  fixes R M :: int
  assumes near: "2 * M - 2 ^ k \<le> 2 * 2 ^ k * R" "2 * 2 ^ k * R \<le> 2 * M + 2 ^ k"
    and far: "k = 0 \<or> 10 \<le> n'"
  shows "\<bar>real_of_int R / 2 ^ n' - real_of_int M / 2 ^ (k + n')\<bar> \<le> 1 / 2048"
proof -
  define D where "D = 2 ^ k * R - M"
  have D: "\<bar>2 * D\<bar> \<le> 2 ^ k"
    using near by (simp add: D_def abs_le_iff algebra_simps)
  have eq: "real_of_int R / 2 ^ n' - real_of_int M / 2 ^ (k + n') = real_of_int D / 2 ^ (k + n')"
    by (simp add: D_def power_add field_simps)
  show ?thesis
  proof (cases "k = 0")
    case True
    then have "D = 0"
      using D by simp
    then show ?thesis
      unfolding eq by simp
  next
    case False
    then have n': "10 \<le> n'"
      using far by simp
    have "\<bar>real_of_int (2 * D)\<bar> \<le> real_of_int (2 ^ k)"
      using D by (simp only: of_int_abs [symmetric] of_int_le_iff)
    then have d: "\<bar>real_of_int D\<bar> \<le> 2 ^ k / 2"
      by simp
    have "(2::real) ^ 10 \<le> 2 ^ n'"
      using n' by (intro power_increasing) simp_all
    then have p: "(1024::real) \<le> 2 ^ n'"
      by simp
    have "\<bar>real_of_int D / 2 ^ (k + n')\<bar> = \<bar>real_of_int D\<bar> / (2 ^ k * 2 ^ n')"
      by (simp add: power_add)
    also have "\<dots> \<le> (2 ^ k / 2) / (2 ^ k * 2 ^ n')"
      using d by (intro divide_right_mono) simp_all
    also have "\<dots> = 1 / (2 * 2 ^ n')"
      by simp
    also have "\<dots> \<le> 1 / (2 * 1024)"
      using p by (intro divide_left_mono) simp_all
    finally show ?thesis
      unfolding eq by simp
  qed
qed

lemma temp_scaled_real:
  assumes m: "\<bar>m\<bar> < 2 ^ 24" and e: "- 149 \<le> e" "e \<le> 104"
    and lo: "f32_lt (Fin (- 40) 0) (Fin m e)" and hi: "f32_lt (Fin m e) (Fin 85 0)"
  shows "\<exists>t P. f32_trunc (f32_round (m * 100) e) = Some t \<and> - 4000 < t \<and> t < 8500 \<and>
           \<bar>P - f32_real m e * 100\<bar> \<le> 1 / 2048 \<and>
           t = (if 0 \<le> P then \<lfloor>P\<rfloor> else \<lceil>P\<rceil>)"
proof (cases "0 \<le> e")
  case True
  define v where "v = m * 2 ^ nat e"
  have c: "min 0 e = 0" "min e 0 = 0"
    using True by simp_all
  have v: "- 40 < v" "v < 85"
    using lo hi by (simp_all add: c v_def)
  have "\<bar>m\<bar> * 1 \<le> \<bar>m\<bar> * 2 ^ nat e"
    by (intro mult_left_mono) simp_all
  then have "\<bar>m\<bar> \<le> \<bar>v\<bar>"
    by (simp add: v_def abs_mult)
  then have "\<bar>m * 100\<bar> < 2 ^ 24"
    using v by (simp add: abs_mult)
  then have "f32_round (m * 100) e = Fin (m * 100) e"
    using True e by (intro f32_round_exact) simp_all
  then have t: "f32_trunc (f32_round (m * 100) e) = Some (100 * v)"
    using True by (simp add: v_def)
  define P where "P = real_of_int (100 * v)"
  have "P - f32_real m e * 100 = 0"
    using True by (simp add: P_def v_def f32_real_nonneg_exp)
  moreover have "100 * v = (if 0 \<le> P then \<lfloor>P\<rfloor> else \<lceil>P\<rceil>)"
    unfolding P_def by (simp only: floor_of_int ceiling_of_int if_cancel)
  ultimately show ?thesis
    using t v by (intro exI [of _ "100 * v"] exI [of _ P]) simp
next
  case False
  then have e': "e < 0" by simp
  obtain R k n' where r: "f32_round (m * 100) e = Fin R (- int n')" "1 \<le> n'"
    "nat (- e) = k + n'" "k = 0 \<or> 10 \<le> n'"
    "R < 8500 * 2 ^ n'" "- (4000 * 2 ^ n') < R"
    "2 * (m * 100) - 2 ^ k \<le> 2 * 2 ^ k * R" "2 * 2 ^ k * R \<le> 2 * (m * 100) + 2 ^ k"
    using temp_round_neg_exp [OF m e(1) e' lo hi] by blast
  define t where "t = sgn R * (\<bar>R\<bar> div 2 ^ n')"
  define P where "P = real_of_int R / 2 ^ n'"
  have tt: "f32_trunc (f32_round (m * 100) e) = Some t"
    using r(1,2) by (simp add: t_def)
  have b: "t < 8500" "- 4000 < t"
    unfolding t_def using r(5,6) by (intro trunc_upper trunc_lower; simp)+
  have ee: "e = - int (k + n')"
    using r(3) e' by linarith
  have "f32_real m e * 100 = real_of_int (m * 100) / 2 ^ (k + n')"
    unfolding ee f32_real_neg_exp by simp
  then have cl: "\<bar>P - f32_real m e * 100\<bar> \<le> 1 / 2048"
    using close_after_rounding [OF r(7,8,4)] by (simp add: P_def)
  have "t = (if 0 \<le> P then \<lfloor>P\<rfloor> else \<lceil>P\<rceil>)"
    unfolding t_def P_def by (rule trunc_real)
  then show ?thesis
    using tt b cl by blast
qed

section \<open>The frame\<close>

lemma f32_lt_real: "f32_lt (Fin a ea) (Fin b eb) \<longleftrightarrow> f32_real a ea < f32_real b eb"
proof -
  define c where "c = min ea eb"
  have pw: "(2::real) powi x = 2 powi c * of_int (2 ^ nat (x - c))" if "c \<le> x" for x
  proof -
    have "(2::real) powi x = 2 powi (c + (x - c))"
      by simp
    also have "\<dots> = 2 powi c * 2 powi (x - c)"
      by (simp only: power_int_add [of "2::real", simplified])
    also have "2 powi (x - c) = (2::real) ^ nat (x - c)"
      using that by (simp add: power_int_nonneg_exp)
    finally show ?thesis by simp
  qed
  have "f32_real a ea < f32_real b eb \<longleftrightarrow>
        2 powi c * real_of_int (a * 2 ^ nat (ea - c)) < 2 powi c * real_of_int (b * 2 ^ nat (eb - c))"
    unfolding f32_real_def pw [of ea, unfolded c_def, OF min.cobounded1, folded c_def]
      pw [of eb, unfolded c_def, OF min.cobounded2, folded c_def]
    by (simp add: mult_ac)
  also have "\<dots> \<longleftrightarrow> real_of_int (a * 2 ^ nat (ea - c)) < real_of_int (b * 2 ^ nat (eb - c))"
    by (rule mult_less_cancel_left_pos) simp
  also have "\<dots> \<longleftrightarrow> a * 2 ^ nat (ea - c) < b * 2 ^ nat (eb - c)"
    by (simp only: of_int_less_iff)
  finally show ?thesis
    by (simp add: c_def Let_def)
qed

lemma read_soil_shape:
  "\<exists>soilRaw. read_soil env = (soilRaw, soil_moisture soilRaw, soil_events)"
  unfolding read_soil_def soil_loop_unroll soil_events_def by (simp add: Let_def)

lemma read_temp_value:
  "fst (read_temp env g) =
     (if mlxSensorAvailable g \<and> temp_in_range (getObjectTemp env) then getObjectTemp env
      else default_temp)"
proof (cases "getObjectTemp env")
  case NaN
  then show ?thesis
    by (simp add: read_temp_def temp_in_range_def isnan_def Let_def)
next
  case (Infty s)
  then show ?thesis
    by (cases s) (simp_all add: read_temp_def temp_in_range_def isnan_def Let_def f32_gt_def
        f32_of_int_exact)
next
  case (Fin m e)
  have "f32_gt (Fin m e) (f32_of_int (- 40)) \<longleftrightarrow> - 40 < f32_real m e"
    by (simp only: f32_gt_def f32_of_int_exact [of "- 40", simplified] f32_lt_real)
      (simp add: f32_real_def)
  moreover have "f32_lt (Fin m e) (f32_of_int 85) \<longleftrightarrow> f32_real m e < 85"
    by (simp only: f32_of_int_exact [of 85, simplified] f32_lt_real)
      (simp add: f32_real_def)
  ultimately show ?thesis
    using Fin by (simp add: read_temp_def temp_in_range_def isnan_def Let_def)
qed

lemma read_temp_events:
  "snd (read_temp env g) =
     (if mlxSensorAvailable g
      then [DigitalWrite MLX_POWER_PIN LOW, Delay 500, MlxGetObjectTemp, DigitalWrite MLX_POWER_PIN HIGH]
      else [])"
  by (simp add: read_temp_def Let_def)

lemma default_temp_value: "temp_value default_temp = Some 2500"
  by (simp add: temp_value_def default_temp_def f32_of_int_exact f32_round_exact f32_to_int16_def)

lemma soil_value_percent:
  assumes "0 \<le> p" and "p \<le> 100"
  shows "soil_value (Fin p 0) = Some (word_of_int (p * 100))"
  unfolding soil_value_def using assms by (rule percent_scaled)

lemma batt_value_level:
  "batt_value (f32_of_int (uint (b :: 8 word))) = Some (word_of_int (uint b * 100))"
proof -
  have b: "0 \<le> uint b" "uint b < 256"
    using uint_bounded [of b] by simp_all
  then have "f32_of_int (uint b) = Fin (uint b) 0"
    by (intro f32_of_int_exact) simp
  moreover have "f32_mul (Fin (uint b) 0) (f32_of_int 100) = Fin (uint b * 100) 0"
    using b by (simp add: f32_of_int_exact f32_round_exact)
  ultimately show ?thesis
    using b by (simp add: batt_value_def f32_to_uint16_def)
qed

lemma temp_value_object_temp:
  assumes "f32_ok (getObjectTemp env)"
  shows "\<exists>t. temp_value (fst (read_temp env g)) = Some (word_of_int t) \<and> - 4000 < t \<and> t < 8500"
proof (cases "fst (read_temp env g) = default_temp")
  case True
  then show ?thesis
    using default_temp_value by (intro exI [of _ 2500]) simp
next
  case False
  then have sel: "fst (read_temp env g) = getObjectTemp env" and av: "mlxSensorAvailable g"
    and nn: "\<not> isnan (getObjectTemp env)"
    and lo: "f32_gt (getObjectTemp env) (f32_of_int (- 40))"
    and hi: "f32_lt (getObjectTemp env) (f32_of_int 85)"
    by (auto simp add: read_temp_def Let_def split: if_splits)
  from lo hi nn obtain m e where me: "getObjectTemp env = Fin m e"
    by (cases "getObjectTemp env") (auto simp add: isnan_def f32_gt_def f32_of_int_exact)
  have ok: "\<bar>m\<bar> < 2 ^ 24" "- 149 \<le> e" "e \<le> 104"
    using assms by (simp_all add: me f32_ok_def)
  have lo': "f32_lt (Fin (- 40) 0) (Fin m e)" and hi': "f32_lt (Fin m e) (Fin 85 0)"
    using lo hi by (simp_all only: me f32_gt_def f32_of_int_exact [of "- 40", simplified]
        f32_of_int_exact [of 85, simplified])
  have "\<exists>t. f32_trunc (f32_round (m * 100) e) = Some t \<and> - 4000 < t \<and> t < 8500"
    using temp_scaled_real [OF ok lo' hi'] by blast
  then obtain t where t: "f32_trunc (f32_round (m * 100) e) = Some t" "- 4000 < t" "t < 8500"
    by blast
  have "f32_mul (Fin m e) (f32_of_int 100) = f32_round (m * 100) e"
    by (simp add: f32_of_int_exact)
  then have "temp_value (getObjectTemp env) = Some (word_of_int t)"
    using t by (simp add: temp_value_def me f32_to_int16_def)
  then show ?thesis
    using t sel by auto
qed

lemma payload_Some:
  "payload s t b = Some data \<Longrightarrow>
     \<exists>sv tv bv. soil_value s = Some sv \<and> temp_value t = Some tv \<and> batt_value b = Some bv \<and>
       data = pack sv tv bv"
  by (auto simp add: payload_def split: option.splits)

lemma pack_decode:
  "length (pack s t b) = 6 \<and>
   word_cat (pack s t b ! 0) (pack s t b ! 1) = s \<and>
   word_cat (pack s t b ! 2) (pack s t b ! 3) = t \<and>
   word_cat (pack s t b ! 4) (pack s t b ! 5) = b"
  by (simp add: pack_def word_cat_hi_lo_uint word_cat_hi_lo_sint)

lemma no_uplink_before_send:
  "filter is_uplink soil_events = []" "filter is_uplink (snd (read_temp env g)) = []"
  by (simp_all add: soil_events_def read_temp_events numeral_eq_Suc)

lemma send_lora_frame_shape:
  assumes "send_lora_frame env g = Some tr"
  shows "\<exists>soilRaw data.
           read_soil env = (soilRaw, soil_moisture soilRaw, soil_events) \<and>
           payload (soil_moisture soilRaw) (fst (read_temp env g))
             (f32_of_int (uint (batteryLevel env))) = Some data \<and>
           tr = soil_events @ snd (read_temp env g) @
             [BoardGetBatteryLevel,
              LmhSend \<lparr>buffer = data, buffsize = 6, port = 2, rssi = 0, snr = 0\<rparr>
                LMH_UNCONFIRMED_MSG]"
proof -
  obtain soilRaw where rs: "read_soil env = (soilRaw, soil_moisture soilRaw, soil_events)"
    using read_soil_shape by blast
  obtain objectTemp tr2 where rt: "read_temp env g = (objectTemp, tr2)"
    by (cases "read_temp env g")
  show ?thesis
    using assms by (auto simp add: send_lora_frame_def rs rt split: option.splits)
qed

lemma send_lora_frame_defined:
  assumes "f32_ok (getObjectTemp env)"
  shows "\<exists>tr. send_lora_frame env g = Some tr"
proof -
  obtain soilRaw where rs: "read_soil env = (soilRaw, soil_moisture soilRaw, soil_events)"
    using read_soil_shape by blast
  obtain objectTemp tr2 where rt: "read_temp env g = (objectTemp, tr2)"
    by (cases "read_temp env g")
  obtain p where p: "0 \<le> p" "p \<le> 100" "soil_moisture soilRaw = Fin p 0"
    using soil_moisture_whole by blast
  obtain t where t: "temp_value objectTemp = Some (word_of_int t)"
    using temp_value_object_temp [OF assms, of g] by (auto simp add: rt)
  show ?thesis
    using p t
    by (simp add: send_lora_frame_def rs rt payload_def soil_value_percent batt_value_level)
qed

lemma to_uint16_Some:
  "f32_to_uint16 x = Some w \<Longrightarrow> \<exists>t. f32_trunc x = Some t \<and> uint w = t"
  by (auto simp add: f32_to_uint16_def uint_word_of_int_16 split: option.splits if_splits)

lemma to_int16_Some:
  "f32_to_int16 x = Some w \<Longrightarrow> \<exists>t. f32_trunc x = Some t \<and> sint w = t"
  by (auto simp add: f32_to_int16_def sint_word_of_int_16 split: option.splits if_splits)

lemma example_frame_sent:
  "send_lora_frame example_frame (initial_globals\<lparr>mlxSensorAvailable := True\<rparr>) =
     Some (soil_events @
       [DigitalWrite MLX_POWER_PIN LOW, Delay 500, MlxGetObjectTemp, DigitalWrite MLX_POWER_PIN HIGH,
        BoardGetBatteryLevel,
        LmhSend \<lparr>buffer = [22, 168, 33, 51, 78, 32], buffsize = 6, port = 2, rssi = 0, snr = 0\<rparr>
          LMH_UNCONFIRMED_MSG])"
  by code_simp

lemma uplink_of_frame:
  assumes "tr = soil_events @ snd (read_temp env g) @ [BoardGetBatteryLevel, LmhSend d0 c0]"
    and "LmhSend d c \<in> set tr"
  shows "d = d0 \<and> c = c0"
  using assms by (auto simp add: soil_events_def read_temp_events numeral_eq_Suc split: if_splits)

lemma temp_value_reading:
  assumes ok: "f32_ok (Fin m e)" and rng: "temp_in_range (Fin m e)"
  shows "\<exists>t P. temp_value (Fin m e) = Some (word_of_int t) \<and> - 4000 < t \<and> t < 8500 \<and>
           \<bar>P - f32_real m e * 100\<bar> \<le> 1 / 2048 \<and>
           t = (if 0 \<le> P then \<lfloor>P\<rfloor> else \<lceil>P\<rceil>)"
proof -
  have b: "\<bar>m\<bar> < 2 ^ 24" "- 149 \<le> e" "e \<le> 104"
    using ok by (simp_all add: f32_ok_def)
  have "f32_real (- 40) 0 = - 40" "f32_real 85 0 = 85"
    by (simp_all add: f32_real_def)
  then have lo: "f32_lt (Fin (- 40) 0) (Fin m e)" and hi: "f32_lt (Fin m e) (Fin 85 0)"
    using rng by (simp_all only: f32_lt_real) (simp_all add: temp_in_range_def)
  obtain t P where t: "f32_trunc (f32_round (m * 100) e) = Some t" "- 4000 < t" "t < 8500"
    "\<bar>P - f32_real m e * 100\<bar> \<le> 1 / 2048" "t = (if 0 \<le> P then \<lfloor>P\<rfloor> else \<lceil>P\<rceil>)"
    using temp_scaled_real [OF b lo hi] by blast
  have "f32_mul (Fin m e) (f32_of_int 100) = f32_round (m * 100) e"
    by (simp add: f32_of_int_exact)
  then have "temp_value (Fin m e) = Some (word_of_int t)"
    using t(1-3) by (simp add: temp_value_def f32_to_int16_def)
  then show ?thesis
    using t(2-5) by blast
qed

lemma payload_whole_percent:
  assumes "0 \<le> p" and "p \<le> 100"
    and "payload (Fin p 0) objectTemp battery = Some data"
  shows "length data = 6 \<and> uint (data ! 0) * 256 + uint (data ! 1) = p * 100"
proof -
  obtain sv tv bv where sv: "soil_value (Fin p 0) = Some sv" and data: "data = pack sv tv bv"
    using payload_Some [OF assms(3)] by blast
  have "sv = word_of_int (p * 100)"
    using sv soil_value_percent [OF assms(1,2)] by simp
  moreover have "uint (word_of_int (p * 100) :: 16 word) = p * 100"
    by (rule uint_word_of_int_16) (use assms in simp_all)
  ultimately have "uint sv = p * 100"
    by (simp only:)
  moreover have "word_cat (data ! 0) (data ! 1) = sv" "length data = 6"
    using pack_decode [of sv tv bv] by (simp_all add: data)
  ultimately show ?thesis
    using uint_word_cat_8_8 [of "data ! 0" "data ! 1"] by simp
qed

lemma round_whole: "round (real_of_int p * 100) = p * 100" "round (f32_real p 0 * 100) = p * 100"
  using round_of_int [of "p * 100"] by (simp_all add: f32_real_def)

section \<open>The loop\<close>

lemma send_trace_no_join:
  assumes "send_lora_frame env g = Some tr"
  shows "LmhJoin \<notin> set tr"
proof -
  obtain data where "tr = soil_events @ snd (read_temp env g) @
           [BoardGetBatteryLevel,
            LmhSend \<lparr>buffer = data, buffsize = 6, port = 2, rssi = 0, snr = 0\<rparr>
              LMH_UNCONFIRMED_MSG]"
    using send_lora_frame_shape [OF assms] by blast
  then show ?thesis
    by (simp add: soil_events_def read_temp_events numeral_eq_Suc)
qed

lemma retry_join_cases:
  "retry_join env g =
     (if \<not> join_status_235 env \<and> \<not> joinInProgress g \<and>
         120000 < unat (millis_236 env - lastJoinAttempt g)
      then (g\<lparr>joinAttempts := int32 (joinAttempts g + 1), joinInProgress := True,
               lastJoinAttempt := millis_245 env\<rparr>, [LmhJoin])
      else (g, []))"
  by (simp add: retry_join_def JOIN_RETRY_INTERVAL_def word_less_nat_alt)

lemma send_if_due_keeps:
  assumes "send_if_due env g = Some (g', tr)"
  shows "joinInProgress g' = joinInProgress g \<and> lastJoinAttempt g' = lastJoinAttempt g \<and>
         LmhJoin \<notin> set tr"
  using assms send_trace_no_join
  by (auto simp add: send_if_due_def split: if_splits option.splits)

lemma status_print_keeps:
  "joinInProgress (status_print env g) = joinInProgress g \<and>
   lastJoinAttempt (status_print env g) = lastJoinAttempt g \<and>
   lastSensorRead (status_print env g) = lastSensorRead g"
  by (simp add: status_print_def)

lemma backdated_send_due:
  fixes now t :: "32 word"
  assumes "unat (t - now) < 2 ^ 32 - 60000"
  shows "SENSOR_INTERVAL \<le> t - (now - SENSOR_INTERVAL)"
proof -
  have e: "t - (now - SENSOR_INTERVAL) = (t - now) + 60000"
    by (simp add: SENSOR_INTERVAL_def)
  have "unat (t - now) + unat (60000 :: 32 word) < 2 ^ LENGTH(32)"
    using assms by simp
  then have "unat ((t - now) + 60000) = unat (t - now) + unat (60000 :: 32 word)"
    by (simp only: unat_add_lem)
  then show ?thesis
    unfolding e by (simp add: word_le_nat_alt SENSOR_INTERVAL_def)
qed

section \<open>Initialization\<close>

lemma probe_addr_2: "probe_addr b (Suc (Suc 0)) tr = (False, tr)"
  by (subst probe_addr.simps) simp

lemma probe_addr_1:
  "probe_addr b (Suc 0) tr =
     (if b 0x3B = (True, SENSOR_SUCCESS) then (True, tr @ [MlxBegin 0x3B])
      else (False, tr @ [MlxBegin 0x3B]))"
  by (subst probe_addr.simps) (auto simp add: addresses_def probe_addr_2 Let_def split: prod.splits)

lemma probe_addr_unroll:
  "probe_addr b 0 tr =
     (if b 0x3A = (True, SENSOR_SUCCESS) then (True, tr @ [MlxBegin 0x3A])
      else if b 0x3B = (True, SENSOR_SUCCESS) then (True, tr @ [MlxBegin 0x3A, MlxBegin 0x3B])
      else (False, tr @ [MlxBegin 0x3A, MlxBegin 0x3B]))"
  by (subst probe_addr.simps) (auto simp add: addresses_def probe_addr_1 Let_def split: prod.splits)

lemma probe_rounds_3: "probe_rounds env (Suc (Suc (Suc 0))) g tr = (g, tr)"
  by (subst probe_rounds.simps) simp

lemma probe_rounds_2:
  "probe_rounds env (Suc (Suc 0)) g tr =
     (let (s2, t2) = probe_addr (mlx_begin env 2) 0 tr in
      if s2 then (g\<lparr>mlxSensorAvailable := True\<rparr>, t2) else (g, t2 @ [Delay 500]))"
  by (subst probe_rounds.simps)
    (simp add: probe_rounds_3 Let_def numeral_2_eq_2 split: prod.splits)

lemma probe_rounds_1:
  "probe_rounds env (Suc 0) g tr =
     (let (s1, t1) = probe_addr (mlx_begin env 1) 0 tr in
      if s1 then (g\<lparr>mlxSensorAvailable := True\<rparr>, t1)
      else probe_rounds env (Suc (Suc 0)) g (t1 @ [Delay 500]))"
  by (subst probe_rounds.simps) (simp add: Let_def split: prod.splits)

lemma probe_rounds_0:
  "probe_rounds env 0 g tr =
     (let (s0, t0) = probe_addr (mlx_begin env 0) 0 tr in
      if s0 then (g\<lparr>mlxSensorAvailable := True\<rparr>, t0)
      else probe_rounds env (Suc 0) g (t0 @ [Delay 500]))"
  by (subst probe_rounds.simps) (simp add: Let_def split: prod.splits)

lemmas probe_unroll = probe_rounds_0 probe_rounds_1 probe_rounds_2 probe_addr_unroll

lemma probed_append: "probed (xs @ ys) = probed xs @ probed ys"
  by (induction xs rule: probed.induct) simp_all

lemma probe_rounds_available:
  "mlxSensorAvailable (fst (probe_rounds env 0 g tr)) \<longleftrightarrow>
     mlxSensorAvailable g \<or> (\<exists>p \<in> set probe_schedule. probe_ok env p)"
  by (simp add: probe_unroll probe_schedule_def probe_ok_def Let_def)

lemma probe_rounds_probed:
  "probed (snd (probe_rounds env 0 g tr)) =
     probed tr @ map snd (takeWhile (\<lambda>p. \<not> probe_ok env p) probe_schedule @
       take 1 (dropWhile (\<lambda>p. \<not> probe_ok env p) probe_schedule))"
  by (simp add: probe_unroll probe_schedule_def probe_ok_def Let_def probed_append)

lemma wait_serial_quiet:
  "list_all quiet (fst (wait_serial fuel ready i tr)) = list_all quiet tr"
  by (induction fuel arbitrary: i tr) simp_all

lemma wait_serial_probed: "probed (fst (wait_serial fuel ready i tr)) = probed tr"
  by (induction fuel arbitrary: i tr) (simp_all add: probed_append)

lemma wait_serial_exact:
  assumes "\<forall>x<j. \<not> ready (i + x)" and "ready (i + j)"
  shows "wait_serial (j + n) ready i tr = (tr @ replicate j (Delay 10), Some n)"
  using assms
proof (induction j arbitrary: i tr)
  case 0
  then show ?case by (cases n) simp_all
next
  case (Suc j)
  from Suc.prems have "\<not> ready i"
    by (metis add.right_neutral zero_less_Suc)
  moreover have "\<forall>x<j. \<not> ready (i + 1 + x)" "ready (i + 1 + j)"
    using Suc.prems by (auto simp add: less_Suc_eq_0_disj)
  ultimately show ?case
    using Suc.IH [of "i + 1" "tr @ [Delay 10]"] by (simp add: replicate_app_Cons_same)
qed

lemma halt_loop_eq:
  "halt_loop n line tr = tr @ concat (replicate n [SerialPrintln line, Delay 10000])"
  by (induction n arbitrary: tr) simp_all

lemma quiet_facts:
  assumes "list_all quiet tr"
  shows "LmhJoin \<notin> set tr" "RadioIrqProcess \<notin> set tr" "filter is_uplink tr = []"
    "count_list tr (SerialPrintln line) = 0"
  using assms by (induction tr; auto elim: quiet.elims)+

lemma init_sensors_quiet:
  "list_all quiet (snd (init_sensors env g tr)) = list_all quiet tr"
  by (simp add: init_sensors_def probe_unroll Let_def split: prod.splits)

lemma init_sensors_probed:
  "probed (snd (init_sensors env g tr)) =
     probed tr @ map snd (takeWhile (\<lambda>p. \<not> probe_ok env p) probe_schedule @
       take 1 (dropWhile (\<lambda>p. \<not> probe_ok env p) probe_schedule))"
proof -
  obtain g1 tr2 where pr: "probe_rounds env 0 g
      (tr @ [PinMode SOIL_POWER_PIN OUTPUT, DigitalWrite SOIL_POWER_PIN LOW,
             PinMode SOIL_SENSOR_PIN INPUT, PinMode MLX_POWER_PIN OUTPUT,
             DigitalWrite MLX_POWER_PIN HIGH, WireBegin, WireSetClock 100000,
             DigitalWrite MLX_POWER_PIN LOW, Delay 1000]) = (g1, tr2)"
    by (cases "probe_rounds env 0 g
      (tr @ [PinMode SOIL_POWER_PIN OUTPUT, DigitalWrite SOIL_POWER_PIN LOW,
             PinMode SOIL_SENSOR_PIN INPUT, PinMode MLX_POWER_PIN OUTPUT,
             DigitalWrite MLX_POWER_PIN HIGH, WireBegin, WireSetClock 100000,
             DigitalWrite MLX_POWER_PIN LOW, Delay 1000])")
  have "probed tr2 = probed tr @ map snd (takeWhile (\<lambda>p. \<not> probe_ok env p) probe_schedule @
       take 1 (dropWhile (\<lambda>p. \<not> probe_ok env p) probe_schedule))"
    using probe_rounds_probed [of env g "tr @ [PinMode SOIL_POWER_PIN OUTPUT, DigitalWrite SOIL_POWER_PIN LOW,
             PinMode SOIL_SENSOR_PIN INPUT, PinMode MLX_POWER_PIN OUTPUT,
             DigitalWrite MLX_POWER_PIN HIGH, WireBegin, WireSetClock 100000,
             DigitalWrite MLX_POWER_PIN LOW, Delay 1000]"]
    by (simp add: pr probed_append)
  then show ?thesis
    by (simp add: init_sensors_def pr probed_append)
qed

lemma init_sensors_available:
  "mlxSensorAvailable (fst (init_sensors env g tr)) \<longleftrightarrow>
     mlxSensorAvailable g \<or> (\<exists>p \<in> set probe_schedule. probe_ok env p)"
  using probe_rounds_available [of env g]
  by (simp add: init_sensors_def Let_def split: prod.splits) (metis fst_conv)

lemma first_hit_prefix:
  "length (takeWhile P xs @ take 1 (dropWhile P xs)) \<le> length xs \<and>
   set (takeWhile P xs @ take 1 (dropWhile P xs)) \<subseteq> set xs"
proof -
  have "length (takeWhile P xs) + length (dropWhile P xs) = length xs"
    using takeWhile_dropWhile_id [of P xs] by (metis length_append)
  then have "length (takeWhile P xs @ take 1 (dropWhile P xs)) \<le> length xs"
    by simp
  moreover have "set (takeWhile P xs @ take 1 (dropWhile P xs)) \<subseteq> set xs"
    using set_takeWhileD [of _ P xs] set_dropWhileD [of _ P xs]
      set_take_subset [of 1 "dropWhile P xs"] by auto
  ultimately show ?thesis ..
qed

text \<open>
  Both \<^verbatim>\<open>setup\<close> and a pass of \<^verbatim>\<open>loop\<close> do produce a result: \<^verbatim>\<open>setup\<close> returns
  with enough fuel once \<^verbatim>\<open>Serial\<close> is ready and both initializations succeed, and no
  conversion of a frame is undefined when the sensor's reading is a binary32 value.
\<close>

lemma setup_fn_returns:
  assumes "\<forall>i<j. \<not> serial_ready env i" and "serial_ready env j"
    and "lora_rak4630_init env = 0" and "lmh_init env = LMH_SUCCESS"
  shows "\<exists>tr g'. setup_fn (j + n) env g = (tr, Some g')"
proof -
  have ws: "wait_serial (j + n) (serial_ready env) 0 [] = (replicate j (Delay 10), Some n)"
    using wait_serial_exact [of j "serial_ready env" 0 n "[]"] assms(1,2) by simp
  obtain g1 tr3 where ini: "init_sensors env g (replicate j (Delay 10)) = (g1, tr3)"
    by (cases "init_sensors env g (replicate j (Delay 10))")
  show ?thesis
    using assms(3,4) by (simp add: setup_fn_def ws ini)
qed

lemma loop_defined:
  assumes "f32_ok (getObjectTemp (frame env))"
  shows "\<exists>g' tr. loop env g = Some (g', tr)"
proof -
  obtain g1 tr1 where rj: "retry_join env g = (g1, tr1)"
    by (cases "retry_join env g")
  obtain ftr where "send_lora_frame (frame env) g1 = Some ftr"
    using send_lora_frame_defined [OF assms] by blast
  then show ?thesis
    by (simp add: loop_def rj send_if_due_def)
qed

section \<open>The claims\<close>

text \<open>
  C3. An averaged raw reading is a count of the analog converter: not negative and, at
  every resolution the converter offers, below \<open>2 ^ 16\<close>. For each such reading the
  moisture is 0 per cent at or above the dry point 3000, 100 per cent at or below the
  wet point 1300, and strictly between the two the whole per cent part of the line
  through (3000, 0) and (1300, 100), the arithmetic of \<^verbatim>\<open>map\<close> being integer. It is
  always a whole number from 0 to 100.
\<close>

theorem soil_moisture_calibration:
  assumes "0 \<le> raw" and "raw \<le> 65535"
  shows "(3000 \<le> raw \<longrightarrow> soil_moisture raw = Fin 0 0) \<and>
         (raw \<le> 1300 \<longrightarrow> soil_moisture raw = Fin 100 0) \<and>
         (1300 < raw \<and> raw < 3000 \<longrightarrow>
            soil_moisture raw = Fin \<lfloor>(3000 - real_of_int raw) / (3000 - 1300) * 100\<rfloor> 0) \<and>
         (\<exists>p. 0 \<le> p \<and> p \<le> 100 \<and> soil_moisture raw = Fin p 0)"
proof -
  have "(3000 - real_of_int raw) / (3000 - 1300) * 100 =
          real_of_int ((3000 - raw) * 100) / real_of_int 1700"
    by simp
  then have fl: "\<lfloor>(3000 - real_of_int raw) / (3000 - 1300) * 100\<rfloor> = ((3000 - raw) * 100) div 1700"
    by (simp only: floor_divide_of_int_eq)
  have v: "soil_moisture raw =
           Fin (if 3000 \<le> raw then 0 else if raw \<le> 1300 then 100
                else ((3000 - raw) * 100) div 1700) 0"
    using assms by (rule soil_moisture_value)
  have "0 \<le> ((3000 - raw) * 100) div 1700 \<and> ((3000 - raw) * 100) div 1700 \<le> 100"
    if "1300 < raw" "raw < 3000"
    using that by auto
  then show ?thesis
    unfolding fl v by auto
qed

theorem soil_moisture_calibration_witness:
  "soil_moisture 3000 = Fin 0 0 \<and> soil_moisture 1300 = Fin 100 0 \<and> soil_moisture 2150 = Fin 50 0"
  using soil_moisture_calibration [of 3000] soil_moisture_calibration [of 1300]
    soil_moisture_calibration [of 2150]
  by simp

text \<open>
  C2. A call of \<^verbatim>\<open>send_lora_frame\<close> hands exactly one uplink to the stack: a buffer of
  six bytes, declared as six, on port 2, as an unconfirmed message. Bytes 0 and 1 are,
  high byte first, the unsigned 16-bit soil value; bytes 2 and 3 the signed 16-bit
  temperature value; bytes 4 and 5 the unsigned 16-bit battery value; each the truncated
  hundredfold of the quantity the sketch has just read.
\<close>

theorem uplink_layout:
  assumes "send_lora_frame env g = Some tr"
  shows "\<exists>soilRaw soilMoisture tr1 objectTemp tr2 data ts tt tb.
           read_soil env = (soilRaw, soilMoisture, tr1) \<and>
           read_temp env g = (objectTemp, tr2) \<and>
           filter is_uplink tr =
             [LmhSend \<lparr>buffer = data, buffsize = 6, port = 2, rssi = 0, snr = 0\<rparr>
                LMH_UNCONFIRMED_MSG] \<and>
           length data = 6 \<and>
           f32_trunc (f32_mul soilMoisture (f32_of_int 100)) = Some ts \<and>
           uint (word_cat (data ! 0) (data ! 1) :: 16 word) = ts \<and>
           f32_trunc (f32_mul objectTemp (f32_of_int 100)) = Some tt \<and>
           sint (word_cat (data ! 2) (data ! 3) :: 16 word) = tt \<and>
           f32_trunc (f32_mul (f32_of_int (uint (batteryLevel env))) (f32_of_int 100)) = Some tb \<and>
           uint (word_cat (data ! 4) (data ! 5) :: 16 word) = tb"
proof -
  obtain soilRaw data where
    rs: "read_soil env = (soilRaw, soil_moisture soilRaw, soil_events)" and
    pl: "payload (soil_moisture soilRaw) (fst (read_temp env g))
           (f32_of_int (uint (batteryLevel env))) = Some data" and
    tr: "tr = soil_events @ snd (read_temp env g) @
           [BoardGetBatteryLevel,
            LmhSend \<lparr>buffer = data, buffsize = 6, port = 2, rssi = 0, snr = 0\<rparr>
              LMH_UNCONFIRMED_MSG]"
    using send_lora_frame_shape [OF assms] by blast
  obtain sv tv bv where
    sv: "soil_value (soil_moisture soilRaw) = Some sv" and
    tv: "temp_value (fst (read_temp env g)) = Some tv" and
    bv: "batt_value (f32_of_int (uint (batteryLevel env))) = Some bv" and
    data: "data = pack sv tv bv"
    using payload_Some [OF pl] by blast
  obtain ts where ts: "f32_trunc (f32_mul (soil_moisture soilRaw) (f32_of_int 100)) = Some ts"
      "uint sv = ts"
    using to_uint16_Some [OF sv [unfolded soil_value_def]] by blast
  obtain tt where tt: "f32_trunc (f32_mul (fst (read_temp env g)) (f32_of_int 100)) = Some tt"
      "sint tv = tt"
    using to_int16_Some [OF tv [unfolded temp_value_def]] by blast
  obtain tb where tb:
      "f32_trunc (f32_mul (f32_of_int (uint (batteryLevel env))) (f32_of_int 100)) = Some tb"
      "uint bv = tb"
    using to_uint16_Some [OF bv [unfolded batt_value_def]] by blast
  have up: "filter is_uplink tr =
      [LmhSend \<lparr>buffer = data, buffsize = 6, port = 2, rssi = 0, snr = 0\<rparr> LMH_UNCONFIRMED_MSG]"
    by (simp add: tr no_uplink_before_send)
  have rt: "read_temp env g = (fst (read_temp env g), snd (read_temp env g))"
    by simp
  show ?thesis
    using rs rt up ts tt tb pack_decode [of sv tv bv] unfolding data [symmetric]
    by blast
qed

theorem uplink_layout_witness:
  "\<exists>tr data. send_lora_frame example_frame (initial_globals\<lparr>mlxSensorAvailable := True\<rparr>) = Some tr \<and>
     filter is_uplink tr =
       [LmhSend \<lparr>buffer = data, buffsize = 6, port = 2, rssi = 0, snr = 0\<rparr> LMH_UNCONFIRMED_MSG] \<and>
     length data = 6 \<and>
     uint (word_cat (data ! 0) (data ! 1) :: 16 word) = 5800 \<and>
     sint (word_cat (data ! 2) (data ! 3) :: 16 word) = 8499 \<and>
     uint (word_cat (data ! 4) (data ! 5) :: 16 word) = 20000"
proof -
  let ?g = "initial_globals\<lparr>mlxSensorAvailable := True\<rparr>"
  obtain tr where tr: "send_lora_frame example_frame ?g = Some tr"
    using example_frame_sent by blast
  have rs: "read_soil example_frame = (2000, Fin 58 0, soil_events)"
    by code_simp
  have rt: "fst (read_temp example_frame ?g) = Fin 11141119 (- 17)"
    by code_simp
  have v: "f32_trunc (f32_mul (Fin 58 0) (f32_of_int 100)) = Some 5800"
    "f32_trunc (f32_mul (Fin 11141119 (- 17)) (f32_of_int 100)) = Some 8499"
    "f32_trunc (f32_mul (f32_of_int (uint (batteryLevel example_frame))) (f32_of_int 100)) = Some 20000"
    by code_simp+
  from uplink_layout [OF tr] show ?thesis
    using tr rs rt v by fastforce
qed

text \<open>
  C1. Every call of \<^verbatim>\<open>send_lora_frame\<close> with a binary32 sensor reading sends one frame.
  Its soil moisture \<^verbatim>\<open>soilMoisture\<close>, as \<open>read_soil\<close> computes it, is a whole percentage
  \<open>p\<close> from 0 to 100, and bytes 0 and 1 of the buffer handed to \<^verbatim>\<open>lmh_send\<close> are, high
  byte first, the unsigned 16-bit number \<open>round (p * 100)\<close>. The same holds of every
  payload built from a whole percentage from 0 to 100, whatever its other two fields.
\<close>

theorem soil_field_encoding:
  assumes "f32_ok (getObjectTemp env)"
  shows "(\<exists>tr data soilRaw soilMoisture tr1 p.
            send_lora_frame env g = Some tr \<and>
            filter is_uplink tr =
              [LmhSend \<lparr>buffer = data, buffsize = 6, port = 2, rssi = 0, snr = 0\<rparr>
                 LMH_UNCONFIRMED_MSG] \<and>
            length data = 6 \<and>
            read_soil env = (soilRaw, soilMoisture, tr1) \<and>
            soilMoisture = Fin p 0 \<and> 0 \<le> f32_real p 0 \<and> f32_real p 0 \<le> 100 \<and>
            uint (data ! 0) * 256 + uint (data ! 1) = round (f32_real p 0 * 100)) \<and>
         (\<forall>p t b d. 0 \<le> p \<and> p \<le> 100 \<and> payload (Fin p 0) t b = Some d \<longrightarrow>
            uint (d ! 0) * 256 + uint (d ! 1) = round (real_of_int p * 100))"
proof -
  obtain tr where tr: "send_lora_frame env g = Some tr"
    using send_lora_frame_defined [OF assms] by blast
  obtain soilRaw data where
    rs: "read_soil env = (soilRaw, soil_moisture soilRaw, soil_events)" and
    pl: "payload (soil_moisture soilRaw) (fst (read_temp env g))
           (f32_of_int (uint (batteryLevel env))) = Some data" and
    sh: "tr = soil_events @ snd (read_temp env g) @
           [BoardGetBatteryLevel,
            LmhSend \<lparr>buffer = data, buffsize = 6, port = 2, rssi = 0, snr = 0\<rparr>
              LMH_UNCONFIRMED_MSG]"
    using send_lora_frame_shape [OF tr] by blast
  obtain p where p: "0 \<le> p" "p \<le> 100" "soil_moisture soilRaw = Fin p 0"
    using soil_moisture_whole by blast
  have up: "filter is_uplink tr =
      [LmhSend \<lparr>buffer = data, buffsize = 6, port = 2, rssi = 0, snr = 0\<rparr> LMH_UNCONFIRMED_MSG]"
    by (simp add: sh no_uplink_before_send)
  have enc: "length data = 6" "uint (data ! 0) * 256 + uint (data ! 1) = round (f32_real p 0 * 100)"
    using payload_whole_percent [OF p(1,2) pl [unfolded p(3)]] by (simp_all only: round_whole)
  have val: "0 \<le> f32_real p 0" "f32_real p 0 \<le> 100"
    using p(1,2) by (simp_all add: f32_real_def)
  have 1: "\<exists>tr data soilRaw soilMoisture tr1 p.
            send_lora_frame env g = Some tr \<and>
            filter is_uplink tr =
              [LmhSend \<lparr>buffer = data, buffsize = 6, port = 2, rssi = 0, snr = 0\<rparr>
                 LMH_UNCONFIRMED_MSG] \<and>
            length data = 6 \<and>
            read_soil env = (soilRaw, soilMoisture, tr1) \<and>
            soilMoisture = Fin p 0 \<and> 0 \<le> f32_real p 0 \<and> f32_real p 0 \<le> 100 \<and>
            uint (data ! 0) * 256 + uint (data ! 1) = round (f32_real p 0 * 100)"
    using tr up enc rs [unfolded p(3)] val by blast
  have 2: "\<forall>p t b d. 0 \<le> p \<and> p \<le> 100 \<and> payload (Fin p 0) t b = Some d \<longrightarrow>
            uint (d ! 0) * 256 + uint (d ! 1) = round (real_of_int p * 100)"
    using payload_whole_percent by (simp only: round_whole) blast
  from 1 2 show ?thesis ..
qed

theorem soil_field_encoding_witness:
  "f32_ok (getObjectTemp example_frame) \<and>
   read_soil example_frame = (2000, Fin 58 0, soil_events) \<and>
   send_lora_frame example_frame initial_globals =
     Some (soil_events @
       [BoardGetBatteryLevel,
        LmhSend \<lparr>buffer = [22, 168, 9, 196, 78, 32], buffsize = 6, port = 2, rssi = 0, snr = 0\<rparr>
          LMH_UNCONFIRMED_MSG]) \<and>
   uint (22 :: 8 word) * 256 + uint (168 :: 8 word) = round (f32_real 58 0 * 100) \<and>
   payload (Fin 58 0) default_temp (Fin 200 0) = Some [22, 168, 9, 196, 78, 32]"
proof -
  have ok: "f32_ok (getObjectTemp example_frame)"
    by (simp add: example_frame_def f32_ok_def)
  have rs: "read_soil example_frame = (2000, Fin 58 0, soil_events)"
    by code_simp
  have h0: "send_lora_frame example_frame initial_globals =
     Some (soil_events @
       [BoardGetBatteryLevel,
        LmhSend \<lparr>buffer = [22, 168, 9, 196, 78, 32], buffsize = 6, port = 2, rssi = 0, snr = 0\<rparr>
          LMH_UNCONFIRMED_MSG])"
    by code_simp
  have pl: "payload (Fin 58 0) default_temp (Fin 200 0) = Some [22, 168, 9, 196, 78, 32]"
    by code_simp
  have enc: "uint (22 :: 8 word) * 256 + uint (168 :: 8 word) = round (f32_real 58 0 * 100)"
  proof -
    obtain tr data soilRaw soilMoisture tr1 p where
      x: "send_lora_frame example_frame initial_globals = Some tr"
        "filter is_uplink tr =
           [LmhSend \<lparr>buffer = data, buffsize = 6, port = 2, rssi = 0, snr = 0\<rparr>
              LMH_UNCONFIRMED_MSG]"
        "read_soil example_frame = (soilRaw, soilMoisture, tr1)"
        "soilMoisture = Fin p 0"
        "uint (data ! 0) * 256 + uint (data ! 1) = round (f32_real p 0 * 100)"
      using soil_field_encoding [OF ok, of initial_globals] by blast
    have "data = [22, 168, 9, 196, 78, 32]"
      using x(1,2) unfolding h0 by (auto simp add: no_uplink_before_send)
    moreover have "p = 58"
      using x(3,4) by (simp add: rs)
    ultimately show ?thesis
      using x(5) by simp
  qed
  show ?thesis
    using ok rs h0 enc pl by (intro conjI) assumption+
qed

text \<open>
  C4. Every call of \<^verbatim>\<open>send_lora_frame\<close> with a binary32 sensor reading sends one frame,
  whose temperature field is bytes 2 and 3 of the buffer handed to \<^verbatim>\<open>lmh_send\<close>, read as
  a signed 16-bit number. When the sensor is marked available and the reading is a number
  strictly between \<open>- 40\<close> and \<open>85\<close>, \<^verbatim>\<open>objectTemp\<close> is the reading, and the field is
  the reading times 100, rounded to binary32 (which moves it by at most \<open>1 / 2048\<close>) and
  cut towards zero. In every other case, that is when the sensor is marked unavailable or
  the reading is a NaN, an infinity, or a number at or outside a bound, \<^verbatim>\<open>objectTemp\<close> is
  the default \<open>25.0\<close> and the field is \<open>2500\<close>.
\<close>

theorem object_temp_fallback:
  assumes "f32_ok (getObjectTemp env)"
  shows "\<exists>tr data objectTemp tr2.
           send_lora_frame env g = Some tr \<and>
           filter is_uplink tr =
             [LmhSend \<lparr>buffer = data, buffsize = 6, port = 2, rssi = 0, snr = 0\<rparr>
                LMH_UNCONFIRMED_MSG] \<and>
           read_temp env g = (objectTemp, tr2) \<and>
           (if mlxSensorAvailable g \<and> temp_in_range (getObjectTemp env)
            then objectTemp = getObjectTemp env \<and>
                 (\<exists>m e P. getObjectTemp env = Fin m e \<and>
                    \<bar>P - f32_real m e * 100\<bar> \<le> 1 / 2048 \<and>
                    sint (word_cat (data ! 2) (data ! 3) :: 16 word) =
                      (if 0 \<le> P then \<lfloor>P\<rfloor> else \<lceil>P\<rceil>))
            else objectTemp = Fin 25 0 \<and> f32_real 25 0 = 25 \<and>
                 sint (word_cat (data ! 2) (data ! 3) :: 16 word) = 2500)"
proof -
  obtain tr where tr: "send_lora_frame env g = Some tr"
    using send_lora_frame_defined [OF assms] by blast
  obtain soilRaw data where
    pl: "payload (soil_moisture soilRaw) (fst (read_temp env g))
           (f32_of_int (uint (batteryLevel env))) = Some data" and
    sh: "tr = soil_events @ snd (read_temp env g) @
           [BoardGetBatteryLevel,
            LmhSend \<lparr>buffer = data, buffsize = 6, port = 2, rssi = 0, snr = 0\<rparr>
              LMH_UNCONFIRMED_MSG]"
    using send_lora_frame_shape [OF tr] by blast
  obtain sv tv bv where
    tv: "temp_value (fst (read_temp env g)) = Some tv" and data: "data = pack sv tv bv"
    using payload_Some [OF pl] by blast
  have up: "filter is_uplink tr =
      [LmhSend \<lparr>buffer = data, buffsize = 6, port = 2, rssi = 0, snr = 0\<rparr> LMH_UNCONFIRMED_MSG]"
    by (simp add: sh no_uplink_before_send)
  have wc: "word_cat (data ! 2) (data ! 3) = tv"
    using pack_decode [of sv tv bv] by (simp add: data)
  have rt: "read_temp env g = (fst (read_temp env g), snd (read_temp env g))"
    by simp
  show ?thesis
  proof (cases "mlxSensorAvailable g \<and> temp_in_range (getObjectTemp env)")
    case True
    then have sel: "fst (read_temp env g) = getObjectTemp env"
      by (simp add: read_temp_value)
    from True obtain m e where me: "getObjectTemp env = Fin m e"
      by (cases "getObjectTemp env") (simp_all add: temp_in_range_def)
    obtain t P where t: "temp_value (Fin m e) = Some (word_of_int t)" "- 4000 < t" "t < 8500"
      "\<bar>P - f32_real m e * 100\<bar> \<le> 1 / 2048" "t = (if 0 \<le> P then \<lfloor>P\<rfloor> else \<lceil>P\<rceil>)"
      using temp_value_reading [of m e] assms True by (auto simp add: me)
    have "tv = word_of_int t"
      using tv t(1) by (simp add: sel me)
    moreover have "sint (word_of_int t :: 16 word) = t"
      by (rule sint_word_of_int_16) (use t in simp_all)
    ultimately have "sint (word_cat (data ! 2) (data ! 3) :: 16 word) = t"
      by (simp only: wc)
    then have "\<exists>m e P. getObjectTemp env = Fin m e \<and>
        \<bar>P - f32_real m e * 100\<bar> \<le> 1 / 2048 \<and>
        sint (word_cat (data ! 2) (data ! 3) :: 16 word) = (if 0 \<le> P then \<lfloor>P\<rfloor> else \<lceil>P\<rceil>)"
      using me t(4,5) by blast
    then show ?thesis
      using tr up rt sel True by (intro exI [of _ tr] exI [of _ data]) auto
  next
    case False
    have sel: "fst (read_temp env g) = Fin 25 0"
      by (subst read_temp_value) (simp only: False if_False default_temp_def)
    have "tv = 2500"
      using tv default_temp_value by (simp add: sel default_temp_def)
    then have "sint (word_cat (data ! 2) (data ! 3) :: 16 word) = 2500"
      by (simp add: wc)
    moreover have "f32_real 25 0 = 25"
      by (simp add: f32_real_def)
    ultimately show ?thesis
      using tr up rt sel False by (intro exI [of _ tr] exI [of _ data]) auto
  qed
qed

theorem object_temp_fallback_witness:
  "f32_ok (getObjectTemp example_frame) \<and> temp_in_range (getObjectTemp example_frame) \<and>
   send_lora_frame example_frame (initial_globals\<lparr>mlxSensorAvailable := True\<rparr>) =
     Some (soil_events @
       [DigitalWrite MLX_POWER_PIN LOW, Delay 500, MlxGetObjectTemp, DigitalWrite MLX_POWER_PIN HIGH,
        BoardGetBatteryLevel,
        LmhSend \<lparr>buffer = [22, 168, 33, 51, 78, 32], buffsize = 6, port = 2, rssi = 0, snr = 0\<rparr>
          LMH_UNCONFIRMED_MSG]) \<and>
   sint (word_cat (33 :: 8 word) (51 :: 8 word) :: 16 word) = 8499 \<and>
   (\<exists>P. \<bar>P - f32_real 11141119 (- 17) * 100\<bar> \<le> 1 / 2048 \<and>
      (8499 :: int) = (if 0 \<le> P then \<lfloor>P\<rfloor> else \<lceil>P\<rceil>)) \<and>
   send_lora_frame example_frame initial_globals =
     Some (soil_events @
       [BoardGetBatteryLevel,
        LmhSend \<lparr>buffer = [22, 168, 9, 196, 78, 32], buffsize = 6, port = 2, rssi = 0, snr = 0\<rparr>
          LMH_UNCONFIRMED_MSG]) \<and>
   sint (word_cat (9 :: 8 word) (196 :: 8 word) :: 16 word) = 2500"
proof -
  let ?g1 = "initial_globals\<lparr>mlxSensorAvailable := True\<rparr>"
  have ok: "f32_ok (getObjectTemp example_frame)"
    by (simp add: example_frame_def f32_ok_def)
  have rng: "temp_in_range (getObjectTemp example_frame)"
    by (simp add: temp_in_range_def f32_real_def example_frame_def)
  have h1: "send_lora_frame example_frame ?g1 =
     Some (soil_events @
       [DigitalWrite MLX_POWER_PIN LOW, Delay 500, MlxGetObjectTemp, DigitalWrite MLX_POWER_PIN HIGH,
        BoardGetBatteryLevel,
        LmhSend \<lparr>buffer = [22, 168, 33, 51, 78, 32], buffsize = 6, port = 2, rssi = 0, snr = 0\<rparr>
          LMH_UNCONFIRMED_MSG])"
    by (fact example_frame_sent)
  have h0: "send_lora_frame example_frame initial_globals =
     Some (soil_events @
       [BoardGetBatteryLevel,
        LmhSend \<lparr>buffer = [22, 168, 9, 196, 78, 32], buffsize = 6, port = 2, rssi = 0, snr = 0\<rparr>
          LMH_UNCONFIRMED_MSG])"
    by code_simp
  have v1: "sint (word_cat (33 :: 8 word) (51 :: 8 word) :: 16 word) = 8499"
    by code_simp
  have accepted: "\<exists>P. \<bar>P - f32_real 11141119 (- 17) * 100\<bar> \<le> 1 / 2048 \<and>
      (8499 :: int) = (if 0 \<le> P then \<lfloor>P\<rfloor> else \<lceil>P\<rceil>)"
  proof -
    obtain tr data objectTemp tr2 where
      x: "send_lora_frame example_frame ?g1 = Some tr"
        "filter is_uplink tr =
           [LmhSend \<lparr>buffer = data, buffsize = 6, port = 2, rssi = 0, snr = 0\<rparr>
              LMH_UNCONFIRMED_MSG]"
        "(if mlxSensorAvailable ?g1 \<and> temp_in_range (getObjectTemp example_frame)
            then objectTemp = getObjectTemp example_frame \<and>
                 (\<exists>m e P. getObjectTemp example_frame = Fin m e \<and>
                    \<bar>P - f32_real m e * 100\<bar> \<le> 1 / 2048 \<and>
                    sint (word_cat (data ! 2) (data ! 3) :: 16 word) =
                      (if 0 \<le> P then \<lfloor>P\<rfloor> else \<lceil>P\<rceil>))
            else objectTemp = Fin 25 0 \<and> f32_real 25 0 = 25 \<and>
                 sint (word_cat (data ! 2) (data ! 3) :: 16 word) = 2500)"
      using object_temp_fallback [OF ok, of ?g1] by blast
    have data: "data = [22, 168, 33, 51, 78, 32]"
      using x(1,2) unfolding h1 by (auto simp add: no_uplink_before_send)
    have av: "mlxSensorAvailable ?g1"
      by simp
    from x(3) av rng obtain m e P where
      "getObjectTemp example_frame = Fin m e" "\<bar>P - f32_real m e * 100\<bar> \<le> 1 / 2048"
      "sint (word_cat (data ! 2) (data ! 3) :: 16 word) = (if 0 \<le> P then \<lfloor>P\<rfloor> else \<lceil>P\<rceil>)"
      by auto
    then show ?thesis
      using v1 by (auto simp add: data example_frame_def)
  qed
  have fallback: "sint (word_cat (9 :: 8 word) (196 :: 8 word) :: 16 word) = 2500"
  proof -
    obtain tr data where
      x: "send_lora_frame example_frame initial_globals = Some tr"
        "filter is_uplink tr =
           [LmhSend \<lparr>buffer = data, buffsize = 6, port = 2, rssi = 0, snr = 0\<rparr>
              LMH_UNCONFIRMED_MSG]"
        "sint (word_cat (data ! 2) (data ! 3) :: 16 word) = 2500"
      using object_temp_fallback [OF ok, of initial_globals]
      by (auto simp add: initial_globals_def)
    have "data = [22, 168, 9, 196, 78, 32]"
      using x(1,2) unfolding h0 by (auto simp add: no_uplink_before_send)
    then show ?thesis
      using x(3) by simp
  qed
  show ?thesis
    using ok rng h1 h0 v1 accepted fallback by (intro conjI) assumption+
qed

text \<open>
  C8. A call of \<^verbatim>\<open>send_lora_frame\<close> that sends a frame starts by powering the soil
  sensor, reads the analog pin exactly five times with a pause of 100 ms after each
  reading, and reads it no more afterwards. With readings that are counts of the
  converter (below \<open>2 ^ 16\<close>), the raw soil value is the integer average of the five, and
  it is this value, rescaled by \<open>soil_moisture\<close>, that the frame carries.
\<close>

theorem send_reads_soil_five_times:
  assumes "\<forall>i<5. uint (analogRead env i) \<le> 65535" and "send_lora_frame env g = Some tr"
  shows "\<exists>rest data.
           tr = [DigitalWrite SOIL_POWER_PIN HIGH, Delay 1000,
                 AnalogRead SOIL_SENSOR_PIN, Delay 100, AnalogRead SOIL_SENSOR_PIN, Delay 100,
                 AnalogRead SOIL_SENSOR_PIN, Delay 100, AnalogRead SOIL_SENSOR_PIN, Delay 100,
                 AnalogRead SOIL_SENSOR_PIN, Delay 100,
                 DigitalWrite SOIL_POWER_PIN LOW] @ rest \<and>
           AnalogRead SOIL_SENSOR_PIN \<notin> set rest \<and>
           fst (read_soil env) =
             (uint (analogRead env 0) + uint (analogRead env 1) + uint (analogRead env 2)
               + uint (analogRead env 3) + uint (analogRead env 4)) div 5 \<and>
           payload (soil_moisture (fst (read_soil env))) (fst (read_temp env g))
             (f32_of_int (uint (batteryLevel env))) = Some data \<and>
           LmhSend \<lparr>buffer = data, buffsize = 6, port = 2, rssi = 0, snr = 0\<rparr>
             LMH_UNCONFIRMED_MSG \<in> set rest"
proof -
  obtain soilRaw data where
    rs: "read_soil env = (soilRaw, soil_moisture soilRaw, soil_events)" and
    pl: "payload (soil_moisture soilRaw) (fst (read_temp env g))
           (f32_of_int (uint (batteryLevel env))) = Some data" and
    tr: "tr = soil_events @ snd (read_temp env g) @
           [BoardGetBatteryLevel,
            LmhSend \<lparr>buffer = data, buffsize = 6, port = 2, rssi = 0, snr = 0\<rparr>
              LMH_UNCONFIRMED_MSG]"
    using send_lora_frame_shape [OF assms(2)] by blast
  have avg: "fst (read_soil env) =
      (uint (analogRead env 0) + uint (analogRead env 1) + uint (analogRead env 2)
        + uint (analogRead env 3) + uint (analogRead env 4)) div 5"
    using read_soil_value [OF assms(1)] by (simp add: Let_def)
  have ev: "soil_events = [DigitalWrite SOIL_POWER_PIN HIGH, Delay 1000,
                 AnalogRead SOIL_SENSOR_PIN, Delay 100, AnalogRead SOIL_SENSOR_PIN, Delay 100,
                 AnalogRead SOIL_SENSOR_PIN, Delay 100, AnalogRead SOIL_SENSOR_PIN, Delay 100,
                 AnalogRead SOIL_SENSOR_PIN, Delay 100,
                 DigitalWrite SOIL_POWER_PIN LOW]"
    by (simp add: soil_events_def numeral_eq_Suc)
  define rest where "rest = snd (read_temp env g) @
           [BoardGetBatteryLevel,
            LmhSend \<lparr>buffer = data, buffsize = 6, port = 2, rssi = 0, snr = 0\<rparr>
              LMH_UNCONFIRMED_MSG]"
  have 1: "tr = soil_events @ rest"
    by (simp add: tr rest_def)
  have 2: "AnalogRead SOIL_SENSOR_PIN \<notin> set rest"
    by (simp add: rest_def read_temp_events)
  have 3: "payload (soil_moisture (fst (read_soil env))) (fst (read_temp env g))
             (f32_of_int (uint (batteryLevel env))) = Some data"
    using pl by (simp add: rs)
  have 4: "LmhSend \<lparr>buffer = data, buffsize = 6, port = 2, rssi = 0, snr = 0\<rparr>
             LMH_UNCONFIRMED_MSG \<in> set rest"
    by (simp add: rest_def)
  show ?thesis
    using 1 2 3 4 avg unfolding ev by blast
qed

theorem send_reads_soil_five_times_witness:
  "uint (analogRead example_frame 0) \<le> 65535 \<and> uint (analogRead example_frame 1) \<le> 65535 \<and>
   uint (analogRead example_frame 2) \<le> 65535 \<and> uint (analogRead example_frame 3) \<le> 65535 \<and>
   uint (analogRead example_frame 4) \<le> 65535 \<and>
   fst (read_soil example_frame) = (2000 + 2000 + 2000 + 2000 + 2000) div 5 \<and>
   send_lora_frame example_frame initial_globals =
     Some ([DigitalWrite SOIL_POWER_PIN HIGH, Delay 1000,
            AnalogRead SOIL_SENSOR_PIN, Delay 100, AnalogRead SOIL_SENSOR_PIN, Delay 100,
            AnalogRead SOIL_SENSOR_PIN, Delay 100, AnalogRead SOIL_SENSOR_PIN, Delay 100,
            AnalogRead SOIL_SENSOR_PIN, Delay 100,
            DigitalWrite SOIL_POWER_PIN LOW] @
       [BoardGetBatteryLevel,
        LmhSend \<lparr>buffer = [22, 168, 9, 196, 78, 32], buffsize = 6, port = 2, rssi = 0, snr = 0\<rparr>
          LMH_UNCONFIRMED_MSG])"
proof -
  have r: "\<forall>i<5. uint (analogRead example_frame i) \<le> 65535"
    by (simp add: example_frame_def)
  have h: "send_lora_frame example_frame initial_globals =
     Some ([DigitalWrite SOIL_POWER_PIN HIGH, Delay 1000,
            AnalogRead SOIL_SENSOR_PIN, Delay 100, AnalogRead SOIL_SENSOR_PIN, Delay 100,
            AnalogRead SOIL_SENSOR_PIN, Delay 100, AnalogRead SOIL_SENSOR_PIN, Delay 100,
            AnalogRead SOIL_SENSOR_PIN, Delay 100,
            DigitalWrite SOIL_POWER_PIN LOW] @
       [BoardGetBatteryLevel,
        LmhSend \<lparr>buffer = [22, 168, 9, 196, 78, 32], buffsize = 6, port = 2, rssi = 0, snr = 0\<rparr>
          LMH_UNCONFIRMED_MSG])"
    by code_simp
  from send_reads_soil_five_times [OF r h] show ?thesis
    using r h by (auto simp add: example_frame_def)
qed

text \<open>
  C10. In every uplink of a call of \<^verbatim>\<open>send_lora_frame\<close>, the reading of the temperature
  sensor being a binary32 value, the unsigned soil field (bytes 0 and 1) is between 0 and
  10000 and the signed temperature field (bytes 2 and 3) is strictly between \<open>- 4000\<close>
  and \<open>8500\<close>. The multiplication by 100 is the correctly rounded single-precision one.
\<close>

theorem payload_fields_in_range:
  assumes "send_lora_frame env g = Some tr" and "LmhSend d c \<in> set tr"
    and "f32_ok (getObjectTemp env)"
  shows "0 \<le> uint (word_cat (buffer d ! 0) (buffer d ! 1) :: 16 word) \<and>
         uint (word_cat (buffer d ! 0) (buffer d ! 1) :: 16 word) \<le> 10000 \<and>
         - 4000 < sint (word_cat (buffer d ! 2) (buffer d ! 3) :: 16 word) \<and>
         sint (word_cat (buffer d ! 2) (buffer d ! 3) :: 16 word) < 8500"
proof -
  obtain soilRaw data where
    pl: "payload (soil_moisture soilRaw) (fst (read_temp env g))
           (f32_of_int (uint (batteryLevel env))) = Some data" and
    tr: "tr = soil_events @ snd (read_temp env g) @
           [BoardGetBatteryLevel,
            LmhSend \<lparr>buffer = data, buffsize = 6, port = 2, rssi = 0, snr = 0\<rparr>
              LMH_UNCONFIRMED_MSG]"
    using send_lora_frame_shape [OF assms(1)] by blast
  have d: "buffer d = data"
    using uplink_of_frame [OF tr assms(2)] by simp
  obtain sv tv bv where
    sv: "soil_value (soil_moisture soilRaw) = Some sv" and
    tv: "temp_value (fst (read_temp env g)) = Some tv" and
    data: "data = pack sv tv bv"
    using payload_Some [OF pl] by blast
  obtain p where p: "0 \<le> p" "p \<le> 100" "soil_moisture soilRaw = Fin p 0"
    using soil_moisture_whole by blast
  have "sv = word_of_int (p * 100)"
    using sv soil_value_percent [OF p(1,2)] by (simp add: p(3))
  moreover have "uint (word_of_int (p * 100) :: 16 word) = p * 100"
    by (rule uint_word_of_int_16) (use p in simp_all)
  ultimately have "uint sv = p * 100"
    by (simp only:)
  then have s: "0 \<le> uint sv" "uint sv \<le> 10000"
    using p by simp_all
  obtain t where t: "temp_value (fst (read_temp env g)) = Some (word_of_int t)"
      "- 4000 < t" "t < 8500"
    using temp_value_object_temp [OF assms(3)] by blast
  have "tv = word_of_int t"
    using tv t(1) by simp
  moreover have "sint (word_of_int t :: 16 word) = t"
    by (rule sint_word_of_int_16) (use t in simp_all)
  ultimately have "sint tv = t"
    by (simp only:)
  then have "- 4000 < sint tv" "sint tv < 8500"
    using t by simp_all
  then show ?thesis
    using s pack_decode [of sv tv bv] unfolding d data by simp
qed

theorem payload_fields_in_range_witness:
  "send_lora_frame example_frame (initial_globals\<lparr>mlxSensorAvailable := True\<rparr>) =
     Some (soil_events @
       [DigitalWrite MLX_POWER_PIN LOW, Delay 500, MlxGetObjectTemp, DigitalWrite MLX_POWER_PIN HIGH,
        BoardGetBatteryLevel,
        LmhSend \<lparr>buffer = [22, 168, 33, 51, 78, 32], buffsize = 6, port = 2, rssi = 0, snr = 0\<rparr>
          LMH_UNCONFIRMED_MSG]) \<and>
   f32_ok (getObjectTemp example_frame) \<and>
   uint (word_cat (22 :: 8 word) (168 :: 8 word) :: 16 word) \<le> 10000 \<and>
   - 4000 < sint (word_cat (33 :: 8 word) (51 :: 8 word) :: 16 word) \<and>
   sint (word_cat (33 :: 8 word) (51 :: 8 word) :: 16 word) < 8500"
proof -
  have ok: "f32_ok (getObjectTemp example_frame)"
    by (simp add: example_frame_def f32_ok_def)
  from payload_fields_in_range [OF example_frame_sent _ ok,
      of "\<lparr>buffer = [22, 168, 33, 51, 78, 32], buffsize = 6, port = 2, rssi = 0, snr = 0\<rparr>"
        LMH_UNCONFIRMED_MSG]
  show ?thesis
    using example_frame_sent ok by simp
qed

text \<open>
  C5. The join-failure callback clears \<^verbatim>\<open>joinInProgress\<close> and does nothing else: it
  issues no join. A pass of \<^verbatim>\<open>loop\<close> issues a join exactly when the stack reports not
  joined, no join is in progress, and more than 120000 ms have passed (on the 32-bit
  millisecond clock) since \<^verbatim>\<open>lastJoinAttempt\<close>; it then sets the flag and restarts the
  interval, and otherwise leaves both as they were.
\<close>

theorem join_retry_only_from_loop:
  assumes "loop env g = Some (g', tr)"
  shows "lorawan_join_failed_handler g = (g\<lparr>joinInProgress := False\<rparr>, []) \<and>
         (LmhJoin \<in> set tr \<longleftrightarrow>
            \<not> join_status_235 env \<and> \<not> joinInProgress g \<and>
            120000 < unat (millis_236 env - lastJoinAttempt g)) \<and>
         (LmhJoin \<in> set tr \<longrightarrow> joinInProgress g' \<and> lastJoinAttempt g' = millis_245 env) \<and>
         (LmhJoin \<notin> set tr \<longrightarrow>
            joinInProgress g' = joinInProgress g \<and> lastJoinAttempt g' = lastJoinAttempt g)"
proof -
  obtain g1 tr1 where rj: "retry_join env g = (g1, tr1)"
    by (cases "retry_join env g")
  obtain g2 tr2 where sd: "send_if_due env g1 = Some (g2, tr2)"
    and g': "g' = status_print env g2"
    and tr: "tr = [RadioIrqProcess] @ tr1 @ tr2 @ [Delay 100]"
    using assms by (auto simp add: loop_def rj split: option.splits)
  have k: "joinInProgress g' = joinInProgress g1" "lastJoinAttempt g' = lastJoinAttempt g1"
    "LmhJoin \<notin> set tr2"
    using send_if_due_keeps [OF sd] status_print_keeps [of env g2] by (simp_all add: g')
  have j: "LmhJoin \<in> set tr \<longleftrightarrow> LmhJoin \<in> set tr1"
    using k by (simp add: tr)
  show ?thesis
    using rj k(1,2) unfolding j retry_join_cases
    by (auto simp add: lorawan_join_failed_handler_def split: if_splits)
qed

theorem join_retry_only_from_loop_witness:
  "loop (example_loop\<lparr>join_status_235 := False, join_status_250 := False, millis_236 := 130000\<rparr>)
     (fst (lorawan_join_failed_handler (initial_globals\<lparr>joinInProgress := True\<rparr>))) =
     Some (initial_globals\<lparr>joinAttempts := 1, joinInProgress := True, lastJoinAttempt := 7000\<rparr>,
           [RadioIrqProcess, LmhJoin, Delay 100]) \<and>
   snd (lorawan_join_failed_handler (initial_globals\<lparr>joinInProgress := True\<rparr>)) = [] \<and>
   (120000 :: nat) < unat (130000 - 0 :: 32 word)"
proof -
  let ?env = "example_loop\<lparr>join_status_235 := False, join_status_250 := False, millis_236 := 130000\<rparr>"
  let ?g = "fst (lorawan_join_failed_handler (initial_globals\<lparr>joinInProgress := True\<rparr>))"
  have h: "loop ?env ?g =
     Some (initial_globals\<lparr>joinAttempts := 1, joinInProgress := True, lastJoinAttempt := 7000\<rparr>,
           [RadioIrqProcess, LmhJoin, Delay 100])"
    by code_simp
  from join_retry_only_from_loop [OF h] show ?thesis
    using h by (simp add: lorawan_join_failed_handler_def initial_globals_def example_loop_def)
qed

text \<open>
  C6. The join-success callback clears \<^verbatim>\<open>joinInProgress\<close> and sets \<^verbatim>\<open>lastSensorRead\<close>
  to its time minus the whole send interval of 60000 ms. In the pass of \<^verbatim>\<open>loop\<close> that
  follows, once the stack reports joined and the 32-bit clock has not come within
  60000 ms of a full turn since the callback, the cadence check fires: exactly one frame
  is handed to the stack and \<^verbatim>\<open>lastSensorRead\<close> is set anew. (The reading of the
  temperature sensor is a binary32 value, so that the frame's conversions are defined.)
\<close>

theorem join_success_sends_at_once:
  assumes "lorawan_has_joined_handler now g = (g1, tr1)"
    and "join_status_250 env"
    and "unat (millis_250 env - now) < 2 ^ 32 - 60000"
    and "f32_ok (getObjectTemp (frame env))"
  shows "\<not> joinInProgress g1 \<and> lastSensorRead g1 = now - 60000 \<and>
         (\<exists>g2 tr d. loop env g1 = Some (g2, tr) \<and>
            filter is_uplink tr = [LmhSend d LMH_UNCONFIRMED_MSG] \<and>
            lastSensorRead g2 = millis_252 env)"
proof -
  have g1: "g1 = g\<lparr>joinInProgress := False, lastSensorRead := now - SENSOR_INTERVAL\<rparr>"
    using assms(1) by (simp add: lorawan_has_joined_handler_def)
  obtain g' tr' where rj: "retry_join env g1 = (g', tr')"
    by (cases "retry_join env g1")
  have ls: "lastSensorRead g' = now - SENSOR_INTERVAL" and up: "filter is_uplink tr' = []"
    and av: "mlxSensorAvailable g' = mlxSensorAvailable g1"
    using rj by (auto simp add: retry_join_def g1 split: if_splits)
  have due: "send_due env g'"
    using assms(2) backdated_send_due [OF assms(3)] by (simp add: send_due_def ls)
  obtain ftr where ftr: "send_lora_frame (frame env) g' = Some ftr"
    using send_lora_frame_defined [OF assms(4)] by blast
  obtain data where "ftr = soil_events @ snd (read_temp (frame env) g') @
           [BoardGetBatteryLevel,
            LmhSend \<lparr>buffer = data, buffsize = 6, port = 2, rssi = 0, snr = 0\<rparr>
              LMH_UNCONFIRMED_MSG]"
    using send_lora_frame_shape [OF ftr] by blast
  then have fup: "filter is_uplink ftr =
      [LmhSend \<lparr>buffer = data, buffsize = 6, port = 2, rssi = 0, snr = 0\<rparr> LMH_UNCONFIRMED_MSG]"
    by (simp add: no_uplink_before_send)
  have "loop env g1 = Some (status_print env (g'\<lparr>lastSensorRead := millis_252 env\<rparr>),
      [RadioIrqProcess] @ tr' @ ftr @ [Delay 100])"
    by (simp add: loop_def rj send_if_due_def due ftr)
  moreover have "filter is_uplink ([RadioIrqProcess] @ tr' @ ftr @ [Delay 100]) =
      [LmhSend \<lparr>buffer = data, buffsize = 6, port = 2, rssi = 0, snr = 0\<rparr> LMH_UNCONFIRMED_MSG]"
    by (simp add: up fup)
  moreover have "lastSensorRead (status_print env (g'\<lparr>lastSensorRead := millis_252 env\<rparr>)) =
      millis_252 env"
    by (simp add: status_print_keeps)
  ultimately show ?thesis
    by (simp add: g1 SENSOR_INTERVAL_def)
qed

theorem join_success_sends_at_once_witness:
  "lorawan_has_joined_handler 6990 initial_globals =
     (initial_globals\<lparr>lastSensorRead := 6990 - 60000\<rparr>, [LmhClassRequest CLASS_A]) \<and>
   join_status_250 example_loop \<and>
   unat (millis_250 example_loop - 6990) < 2 ^ 32 - 60000 \<and>
   f32_ok (getObjectTemp (frame example_loop)) \<and>
   (\<exists>g2 tr d. loop example_loop (initial_globals\<lparr>lastSensorRead := 6990 - 60000\<rparr>) = Some (g2, tr) \<and>
      filter is_uplink tr = [LmhSend d LMH_UNCONFIRMED_MSG] \<and> lastSensorRead g2 = 9000)"
proof -
  have 1: "lorawan_has_joined_handler 6990 initial_globals =
     (initial_globals\<lparr>lastSensorRead := 6990 - 60000\<rparr>, [LmhClassRequest CLASS_A])"
    by (simp add: lorawan_has_joined_handler_def initial_globals_def SENSOR_INTERVAL_def)
  have 2: "join_status_250 example_loop"
    by (simp add: example_loop_def)
  have 3: "unat (millis_250 example_loop - 6990) < 2 ^ 32 - 60000"
    by (simp add: example_loop_def)
  have 4: "f32_ok (getObjectTemp (frame example_loop))"
    by (simp add: example_loop_def example_frame_def f32_ok_def)
  from join_success_sends_at_once [OF 1 2 3 4] show ?thesis
    using 1 2 3 4 by (simp add: example_loop_def)
qed

text \<open>
  C7. When \<^verbatim>\<open>lora_rak4630_init\<close> returns a nonzero code, or \<^verbatim>\<open>lmh_init\<close> a status
  other than \<^verbatim>\<open>LMH_SUCCESS\<close>, \<^verbatim>\<open>setup\<close> does not return, whatever the fuel: it has
  issued no join, no uplink and no radio servicing, and the sketch has begun no pass of
  \<^verbatim>\<open>loop\<close>. Once \<^verbatim>\<open>Serial\<close> has become ready (at its \<open>j\<close>-th test), \<open>n\<close> further units
  of fuel are \<open>n\<close> passes of the halting loop and \<open>n\<close> copies of its line in the output:
  the line repeats without end.
\<close>

theorem init_failure_halts:
  assumes "lora_rak4630_init env \<noteq> 0 \<or> lmh_init env \<noteq> LMH_SUCCESS"
  shows "snd (setup_fn fuel env g) = None \<and>
         LmhJoin \<notin> set (fst (setup_fn fuel env g)) \<and>
         RadioIrqProcess \<notin> set (fst (setup_fn fuel env g)) \<and>
         filter is_uplink (fst (setup_fn fuel env g)) = [] \<and>
         sketch fuel env lenvs = (fst (setup_fn fuel env initial_globals), 0) \<and>
         ((\<forall>i<j. \<not> serial_ready env i) \<and> serial_ready env j \<longrightarrow>
            count_list (fst (setup_fn (j + n) env g))
              (SerialPrintln (if lora_rak4630_init env \<noteq> 0 then halt_line_radio
                 else halt_line_stack)) = n)"
proof -
  define line where
    "line = (if lora_rak4630_init env \<noteq> 0 then halt_line_radio else halt_line_stack)"
  have shape: "\<exists>tr m l. list_all quiet tr \<and>
      setup_fn f env h = (tr @ concat (replicate m [SerialPrintln l, Delay 10000]), None)"
    for f h
  proof (cases "wait_serial f (serial_ready env) 0 []")
    case (Pair tr0 r)
    have q0: "list_all quiet tr0"
      using wait_serial_quiet [of f "serial_ready env" 0 "[]"] by (simp add: Pair)
    show ?thesis
    proof (cases r)
      case None
      then have "setup_fn f env h = (tr0 @ concat (replicate 0 [SerialPrintln [], Delay 10000]), None)"
        by (simp add: setup_fn_def Pair)
      then show ?thesis using q0 by blast
    next
      case (Some f')
      obtain g1 tr3 where ini: "init_sensors env h tr0 = (g1, tr3)"
        by (cases "init_sensors env h tr0")
      have q3: "list_all quiet tr3" "list_all quiet (tr3 @ [LmhInit])"
        using init_sensors_quiet [of env h tr0] q0 by (simp_all add: ini)
      show ?thesis
      proof (cases "lora_rak4630_init env \<noteq> 0")
        case True
        then have "setup_fn f env h =
            (tr3 @ concat (replicate f' [SerialPrintln halt_line_radio, Delay 10000]), None)"
          by (simp add: setup_fn_def Pair Some ini halt_loop_eq)
        then show ?thesis using q3 by blast
      next
        case False
        then have "setup_fn f env h =
            ((tr3 @ [LmhInit]) @ concat (replicate f' [SerialPrintln halt_line_stack, Delay 10000]), None)"
          using assms by (simp add: setup_fn_def Pair Some ini halt_loop_eq)
        then show ?thesis using q3 by blast
      qed
    qed
  qed
  have halted: "snd (setup_fn f env h) = None" for f h
    using shape [of f h] by auto
  have no_radio: "LmhJoin \<notin> set (fst (setup_fn f env h)) \<and>
      RadioIrqProcess \<notin> set (fst (setup_fn f env h)) \<and>
      filter is_uplink (fst (setup_fn f env h)) = []" for f h
  proof -
    obtain tr m l where "list_all quiet tr"
      "setup_fn f env h = (tr @ concat (replicate m [SerialPrintln l, Delay 10000]), None)"
      using shape [of f h] by blast
    then show ?thesis
      using quiet_facts(1-3) [of tr] by (induction m) auto
  qed
  have sk: "sketch fuel env lenvs = (fst (setup_fn fuel env initial_globals), 0)"
    using halted [of fuel initial_globals]
    by (cases "setup_fn fuel env initial_globals") (simp add: sketch_def)
  have repeats: "count_list (fst (setup_fn (j + n) env g)) (SerialPrintln line) = n"
    if "\<forall>i<j. \<not> serial_ready env i" and "serial_ready env j"
  proof -
    have ws: "wait_serial (j + n) (serial_ready env) 0 [] = (replicate j (Delay 10), Some n)"
      using wait_serial_exact [of j "serial_ready env" 0 n "[]"] that by simp
    have q0: "list_all quiet (replicate j (Delay 10))"
      by (induction j) simp_all
    obtain g1 tr3 where ini: "init_sensors env g (replicate j (Delay 10)) = (g1, tr3)"
      by (cases "init_sensors env g (replicate j (Delay 10))")
    have q3: "list_all quiet tr3" "list_all quiet (tr3 @ [LmhInit])"
      using init_sensors_quiet [of env g "replicate j (Delay 10)"] q0 by (simp_all add: ini)
    have cnt: "count_list (tr @ concat (replicate n [SerialPrintln line, Delay 10000]))
        (SerialPrintln line) = n" if "list_all quiet tr" for tr
      using quiet_facts(4) [OF that, of line] by (induction n) simp_all
    show ?thesis
    proof (cases "lora_rak4630_init env \<noteq> 0")
      case True
      then have "fst (setup_fn (j + n) env g) =
          tr3 @ concat (replicate n [SerialPrintln line, Delay 10000])"
        by (simp add: setup_fn_def ws ini halt_loop_eq line_def)
      then show ?thesis using cnt [OF q3(1)] by simp
    next
      case False
      then have "fst (setup_fn (j + n) env g) =
          (tr3 @ [LmhInit]) @ concat (replicate n [SerialPrintln line, Delay 10000])"
        using assms by (simp add: setup_fn_def ws ini halt_loop_eq line_def)
      then show ?thesis using cnt [OF q3(2)] by simp
    qed
  qed
  show ?thesis
    using halted [of fuel g] no_radio [of fuel g] sk repeats unfolding line_def by blast
qed

theorem init_failure_halts_witness:
  "snd (setup_fn 5 (example_setup\<lparr>lora_rak4630_init := 3\<rparr>) initial_globals) = None \<and>
   sketch 5 (example_setup\<lparr>lora_rak4630_init := 3\<rparr>) [example_loop] =
     (fst (setup_fn 5 (example_setup\<lparr>lora_rak4630_init := 3\<rparr>) initial_globals), 0) \<and>
   count_list (fst (setup_fn (2 + 3) (example_setup\<lparr>lora_rak4630_init := 3\<rparr>) initial_globals))
     (SerialPrintln halt_line_radio) = 3"
proof -
  let ?env = "example_setup\<lparr>lora_rak4630_init := 3\<rparr>"
  have a: "lora_rak4630_init ?env \<noteq> 0 \<or> lmh_init ?env \<noteq> LMH_SUCCESS"
    by (simp add: example_setup_def)
  have b: "(\<forall>i<2. \<not> serial_ready ?env i) \<and> serial_ready ?env 2"
    by (simp add: example_setup_def)
  from init_failure_halts [OF a, where fuel = 5 and g = initial_globals
      and lenvs = "[example_loop]" and j = 2 and n = 3] b
  show ?thesis
    by (simp add: example_setup_def)
qed

text \<open>
  C9. When \<^verbatim>\<open>setup\<close> returns on the power-on state, the addresses it has probed are,
  in order, those of the schedule (three rounds of 0x3A then 0x3B) up to and including
  the first probe that reports success, and all of the schedule when none does: only
  the two addresses, at most six probes. The sensor is marked available exactly when
  some probe of the schedule reports success.
\<close>

theorem sensor_probe:
  assumes "setup_fn fuel env initial_globals = (tr, Some g)"
  shows "(mlxSensorAvailable g \<longleftrightarrow> (\<exists>p \<in> set probe_schedule. probe_ok env p)) \<and>
         probed tr =
           map snd (takeWhile (\<lambda>p. \<not> probe_ok env p) probe_schedule @
             take 1 (dropWhile (\<lambda>p. \<not> probe_ok env p) probe_schedule)) \<and>
         set (probed tr) \<subseteq> {0x3A, 0x3B} \<and> length (probed tr) \<le> 6"
proof -
  obtain tr0 fuel' where ws: "wait_serial fuel (serial_ready env) 0 [] = (tr0, Some fuel')"
    using assms by (auto simp add: setup_fn_def split: prod.splits option.splits)
  obtain g1 tr3 where ini: "init_sensors env initial_globals tr0 = (g1, tr3)"
    by (cases "init_sensors env initial_globals tr0")
  have res: "tr = tr3 @ [LmhInit, LmhSetDevEui, LmhSetAppEui, LmhSetAppKey, LmhJoin]"
    "g = g1\<lparr>joinInProgress := True, joinAttempts := 1, lastJoinAttempt := millis_215 env\<rparr>"
    using assms by (auto simp add: setup_fn_def ws ini split: if_splits)
  have "probed tr0 = []"
    using wait_serial_probed [of fuel "serial_ready env" 0 "[]"] by (simp add: ws)
  then have p: "probed tr =
           map snd (takeWhile (\<lambda>p. \<not> probe_ok env p) probe_schedule @
             take 1 (dropWhile (\<lambda>p. \<not> probe_ok env p) probe_schedule))"
    using init_sensors_probed [of env initial_globals tr0] by (simp add: res ini probed_append)
  have a: "mlxSensorAvailable g \<longleftrightarrow> (\<exists>p \<in> set probe_schedule. probe_ok env p)"
  proof -
    have "\<not> mlxSensorAvailable initial_globals"
      by (simp add: initial_globals_def)
    moreover have "mlxSensorAvailable g = mlxSensorAvailable (fst (init_sensors env initial_globals tr0))"
      by (simp add: res ini)
    ultimately show ?thesis
      using init_sensors_available [of env initial_globals tr0] by simp
  qed
  have "length (probed tr) \<le> length probe_schedule"
    "set (probed tr) \<subseteq> snd ` set probe_schedule"
    using first_hit_prefix [of "\<lambda>p. \<not> probe_ok env p" probe_schedule]
    unfolding p by (simp, auto)
  moreover have "length probe_schedule = 6" "snd ` set probe_schedule = {0x3A, 0x3B}"
    by (auto simp add: probe_schedule_def)
  ultimately have "length (probed tr) \<le> 6" "set (probed tr) \<subseteq> {0x3A, 0x3B}"
    by (simp_all only:)
  then show ?thesis
    using a p by blast
qed

theorem sensor_probe_witness:
  "setup_fn 10 example_setup initial_globals =
     ([Delay 10, Delay 10, PinMode SOIL_POWER_PIN OUTPUT, DigitalWrite SOIL_POWER_PIN LOW,
       PinMode SOIL_SENSOR_PIN INPUT, PinMode MLX_POWER_PIN OUTPUT,
       DigitalWrite MLX_POWER_PIN HIGH, WireBegin, WireSetClock 100000,
       DigitalWrite MLX_POWER_PIN LOW, Delay 1000,
       MlxBegin 0x3A, MlxBegin 0x3B, Delay 500, MlxBegin 0x3A, MlxBegin 0x3B,
       MlxGetObjectTemp, DigitalWrite MLX_POWER_PIN HIGH, LoraRak4630Init,
       LmhInit, LmhSetDevEui, LmhSetAppEui, LmhSetAppKey, LmhJoin],
      Some \<lparr>mlxSensorAvailable = True, lastSensorRead = 0, lastJoinAttempt = 5000,
             joinInProgress = True, joinAttempts = 1, lastStatusPrint = 0\<rparr>) \<and>
   probe_ok example_setup (1, 0x3B) \<and>
   map snd (takeWhile (\<lambda>p. \<not> probe_ok example_setup p) probe_schedule @
     take 1 (dropWhile (\<lambda>p. \<not> probe_ok example_setup p) probe_schedule)) =
     [0x3A, 0x3B, 0x3A, 0x3B]"
proof -
  have ws: "wait_serial 10 (serial_ready example_setup) 0 [] = ([Delay 10, Delay 10], Some 8)"
    using wait_serial_exact [of 2 "serial_ready example_setup" 0 8 "[]"]
    by (simp add: example_setup_def numeral_2_eq_2)
  have h: "setup_fn 10 example_setup initial_globals =
     ([Delay 10, Delay 10, PinMode SOIL_POWER_PIN OUTPUT, DigitalWrite SOIL_POWER_PIN LOW,
       PinMode SOIL_SENSOR_PIN INPUT, PinMode MLX_POWER_PIN OUTPUT,
       DigitalWrite MLX_POWER_PIN HIGH, WireBegin, WireSetClock 100000,
       DigitalWrite MLX_POWER_PIN LOW, Delay 1000,
       MlxBegin 0x3A, MlxBegin 0x3B, Delay 500, MlxBegin 0x3A, MlxBegin 0x3B,
       MlxGetObjectTemp, DigitalWrite MLX_POWER_PIN HIGH, LoraRak4630Init,
       LmhInit, LmhSetDevEui, LmhSetAppEui, LmhSetAppKey, LmhJoin],
      Some \<lparr>mlxSensorAvailable = True, lastSensorRead = 0, lastJoinAttempt = 5000,
             joinInProgress = True, joinAttempts = 1, lastStatusPrint = 0\<rparr>)"
    unfolding setup_fn_def ws
    by (simp add: init_sensors_def probe_unroll example_setup_def initial_globals_def Let_def)
  have ok: "probe_ok example_setup (1, 0x3B)"
    by (simp add: probe_ok_def example_setup_def)
  have sched: "map snd (takeWhile (\<lambda>p. \<not> probe_ok example_setup p) probe_schedule @
     take 1 (dropWhile (\<lambda>p. \<not> probe_ok example_setup p) probe_schedule)) =
     [0x3A, 0x3B, 0x3A, 0x3B]"
    by (simp add: probe_schedule_def probe_ok_def example_setup_def)
  from sensor_probe [OF h] have "mlxSensorAvailable \<lparr>mlxSensorAvailable = True, lastSensorRead = 0,
      lastJoinAttempt = 5000, joinInProgress = True, joinAttempts = 1, lastStatusPrint = 0\<rparr> \<longleftrightarrow>
      (\<exists>p \<in> set probe_schedule. probe_ok example_setup p)"
    by (rule conjunct1)
  with h ok sched show ?thesis
    by (intro conjI) assumption+
qed

end
